theory Spec2Isabelle
  imports Main "HOL-Library.AList"
begin

section \<open>The host platform\<close>

text \<open>
  The component runtime of \<^verbatim>\<open>src/sources/core.ts\<close> and of the latest revision in
  \<^verbatim>\<open>src/index.ts\<close> runs inside a browser. Everything the code calls on the host
  (the DOM, the timer queue, event dispatch, the form facility, the console) is kept in
  a \<open>world\<close> record that the functions below take and return. A field of the world is
  either host state the code reads back (\<open>timers\<close>, \<open>validity\<close>) or the trace of the
  calls the code made, in call order.
\<close>

subsection \<open>Nodes\<close>

datatype node = Element string "(string \<times> string) list" "node list" | Text string

fun nodeName :: "node \<Rightarrow> string" where
  "nodeName (Element n _ _) = n"
| "nodeName (Text _) = ''#text''"

text \<open>
  \<^verbatim>\<open>Node.isEqualNode\<close>: same kind, same name, the same attributes whatever their order,
  and children that are pairwise equal in the same sense.
\<close>

fun isEqualNode :: "node \<Rightarrow> node \<Rightarrow> bool" where
  "isEqualNode (Element n as cs) (Element n' as' cs') =
     (n = n' \<and> length as = length as' \<and> set as = set as' \<and> list_all2 isEqualNode cs cs')"
| "isEqualNode (Text t) (Text t') = (t = t')"
| "isEqualNode _ _ = False"

text \<open>
  \<^verbatim>\<open>morphdom\<close> is an external library. It is a parameter \<open>md\<close> of every function that
  reaches it: \<open>md fromNode toNode onBeforeElUpdated\<close> is the content of \<open>fromNode\<close> after
  the merge.
\<close>

type_synonym morphdom = "node \<Rightarrow> node \<Rightarrow> (node \<Rightarrow> node \<Rightarrow> bool) \<Rightarrow> node"

datatype dom_op =
    AppendChild node
  | ReplaceWith node node
  | Morphdom node node
  | ClearDocument

subsection \<open>Events\<close>

text \<open>An event is its \<^verbatim>\<open>type\<close> (the event name) and whatever it carries.\<close>

type_synonym 'd event = "string \<times> 'd"

text \<open>\<^verbatim>\<open>type World = Window\<close>: the one process-wide \<^verbatim>\<open>window\<close> object.\<close>

type_synonym World = unit

definition window :: World where
  "window = ()"

datatype EventChannel = Global | Local

datatype target = Window | This

datatype event_call = PreventDefault string | StopImmediatePropagation string

subsection \<open>The form facility\<close>

text \<open>
  The ten members of \<^verbatim>\<open>ValidityStateFlags\<close>. A \<^verbatim>\<open>ValidityStateFlags\<close> object maps
  some of them to a boolean; the host's \<^verbatim>\<open>ValidityState\<close> has every one of them.
\<close>

datatype flag =
    valueMissing | stepMismatch | badInput | customError | patternMismatch
  | rangeOverflow | rangeUnderflow | tooLong | tooShort | typeMismatch

type_synonym ValidityStateFlags = "flag \<rightharpoonup> bool"
type_synonym ValidityState = "flag \<Rightarrow> bool"

text \<open>The \<^verbatim>\<open>??\<close> operator: the right operand when the left one is missing.\<close>

definition nullish :: "'a option \<Rightarrow> 'a \<Rightarrow> 'a" where
  "nullish v d = (case v of None \<Rightarrow> d | Some x \<Rightarrow> x)"

subsection \<open>The world\<close>

record ('s, 'd) world =
  timers :: nat
  renderCalls :: "'s list"
  emitCalls :: "('s \<times> 's) list"
  dispatched :: "(target \<times> 'd event) list"
  domOps :: "dom_op list"
  consoleLog :: "('s \<times> 's) list"
  eventCalls :: "event_call list"
  shadowListeners :: "string list"
  windowListeners :: "string list"
  formValues :: "string list"
  validity :: ValidityState
  validityPushes :: "(ValidityStateFlags \<times> string \<times> node) list"
  attached :: bool

text \<open>
  \<open>timers\<close> counts the zero-delay tasks of the instance that the host has queued and not
  yet run: every task the code queues is the same closure, so the count is the queue.
  \<open>renderCalls\<close> lists the states \<^verbatim>\<open>_render\<close> was called with, \<open>emitCalls\<close> the
  (old, new) pairs \<^verbatim>\<open>_maybeEmitEvents\<close> was entered with, \<open>dispatched\<close> the calls of
  \<^verbatim>\<open>dispatchEvent\<close>. A dispatched event is an output: what listeners outside the
  instance do with it is a later, separate call into the instance. \<open>validityPushes\<close>
  lists the calls of \<^verbatim>\<open>setValidity\<close>, whether the host accepted them or not.
  \<open>attached\<close> tells whether the node the instance holds in \<^verbatim>\<open>_root\<close> is in the tree
  of the instance: the span the constructor creates is not, \<^verbatim>\<open>appendChild\<close> puts the
  root there, and \<^verbatim>\<open>replaceWith\<close> and \<^verbatim>\<open>morphdom\<close> leave a root where it is.
\<close>

definition setTimeout :: "('s, 'd) world \<Rightarrow> ('s, 'd) world" where
  "setTimeout w = w\<lparr>timers := Suc (timers w)\<rparr>"

definition dispatchEvent :: "target \<Rightarrow> 'd event \<Rightarrow> ('s, 'd) world \<Rightarrow> ('s, 'd) world" where
  "dispatchEvent t e w = w\<lparr>dispatched := dispatched w @ [(t, e)]\<rparr>"

definition domOp :: "dom_op \<Rightarrow> ('s, 'd) world \<Rightarrow> ('s, 'd) world" where
  "domOp x w = w\<lparr>domOps := domOps w @ [x]\<rparr>"

definition appendChild :: "node \<Rightarrow> ('s, 'd) world \<Rightarrow> ('s, 'd) world" where
  "appendChild n w = (domOp (AppendChild n) w)\<lparr>attached := True\<rparr>"

definition console_log :: "'s \<Rightarrow> 's \<Rightarrow> ('s, 'd) world \<Rightarrow> ('s, 'd) world" where
  "console_log os ns w = w\<lparr>consoleLog := consoleLog w @ [(os, ns)]\<rparr>"

definition setFormValue :: "string \<Rightarrow> ('s, 'd) world \<Rightarrow> ('s, 'd) world" where
  "setFormValue v w = w\<lparr>formValues := formValues w @ [v]\<rparr>"

datatype error = TypeError | NotFoundError

definition all_flags :: "flag list" where
  "all_flags =
     [valueMissing, stepMismatch, badInput, customError, patternMismatch,
      rangeOverflow, rangeUnderflow, tooLong, tooShort, typeMismatch]"

text \<open>
  \<^verbatim>\<open>ElementInternals.setValidity(flags, message, anchor)\<close>. The host refuses the call
  with a \<^verbatim>\<open>TypeError\<close> when a flag is set and the message is empty, and with a
  \<^verbatim>\<open>NotFoundError\<close> when the anchor is not in the tree of the element; the code always
  passes \<^verbatim>\<open>_root\<close> as the anchor. A refused call raises and leaves the validity state
  as it was. An accepted call makes the validity state the flags given, a missing flag
  being false. \<open>refusal\<close> is the exception the host raises, if any; the result of
  \<open>setValidity\<close> is the world after the call and that exception.
\<close>

definition refusal :: "ValidityStateFlags \<Rightarrow> string \<Rightarrow> ('s, 'd) world \<Rightarrow> error option" where
  "refusal flags message w =
     (if list_ex (\<lambda>k. flags k = Some True) all_flags \<and> message = [] then Some TypeError
      else if attached w then None
      else Some NotFoundError)"

definition setValidity ::
  "ValidityStateFlags \<Rightarrow> string \<Rightarrow> node \<Rightarrow> ('s, 'd) world
     \<Rightarrow> ('s, 'd) world \<times> error option" where
  "setValidity flags message anchor w =
     (let w1 = w\<lparr>validityPushes := validityPushes w @ [(flags, message, anchor)]\<rparr> in
      case refusal flags message w of
        Some e \<Rightarrow> (w1, Some e)
      | None \<Rightarrow> (w1\<lparr>validity := (\<lambda>k. nullish (flags k) False)\<rparr>, None))"

text \<open>
  A freshly created host: nothing queued, nothing called, every validity flag false, no
  root in the tree.
\<close>

definition initial_world :: "('s, 'd) world" where
  "initial_world =
     \<lparr>timers = 0, renderCalls = [], emitCalls = [], dispatched = [], domOps = [],
      consoleLog = [], eventCalls = [], shadowListeners = [], windowListeners = [],
      formValues = [], validity = (\<lambda>_. False), validityPushes = [], attached = False\<rparr>"

section \<open>The data model of the runtime\<close>

type_synonym ('s, 'd) EventHandler = "'s \<Rightarrow> 'd event \<Rightarrow> World \<Rightarrow> 's"
type_synonym ('s, 'd) Events = "(string \<times> ('s, 'd) EventHandler) list"

text \<open>
  \<^verbatim>\<open>EventRecord\<close> of \<^verbatim>\<open>index.ts\<close>: a bare handler function, or an object holding the
  handler and its channel.
\<close>

datatype ('s, 'd) EventRecord =
    Bare "('s, 'd) EventHandler"
  | Channelled "('s, 'd) EventHandler" EventChannel

type_synonym ('s, 'd) EventRecords = "(string \<times> ('s, 'd) EventRecord) list"

text \<open>\<^verbatim>\<open>emit: EventEmitter | EventEmitter[]\<close>.\<close>

datatype ('s, 'd) emitters = Single "'s \<Rightarrow> 'd event" | Many "('s \<Rightarrow> 'd event) list"

record ('s, 'd) EmitRecord =
  when_pred :: "'s \<Rightarrow> 's \<Rightarrow> bool"
  emit :: "('s, 'd) emitters"
  channel :: "EventChannel option"

datatype RedrawMode = Replace | Update

text \<open>
  The fields of \<^verbatim>\<open>_Component\<close>. \<open>connected\<close> and \<open>redrawMode\<close> are fields of the class in
  \<^verbatim>\<open>index.ts\<close> only; the functions of \<^verbatim>\<open>core.ts\<close> never read them, and its emission
  never reads \<open>channel\<close>. The state is compared with \<^verbatim>\<open>===\<close>: \<open>'s\<close> is the type of what
  that operator compares (a primitive value, or the reference of an object).
\<close>

record ('s, 'd) Component =
  state :: 's
  render :: "'s \<Rightarrow> node"
  root :: node
  emitRecords :: "('s, 'd) EmitRecord list option"
  globalEvents :: "('s, 'd) Events"
  localEvents :: "('s, 'd) Events"
  debug :: bool
  deferredRedraw :: bool
  viewupdated :: "('s \<Rightarrow> node \<Rightarrow> 's) option"
  connected :: bool
  redrawMode :: RedrawMode

text \<open>\<^verbatim>\<open>_FormComponent extends _Component\<close>; \<^verbatim>\<open>_internals\<close> is the host's, in the world.\<close>

record ('s, 'd) FormComponent = "('s, 'd) Component" +
  formValue :: "'s \<Rightarrow> string"
  validate :: "('s \<Rightarrow> ValidityStateFlags \<times> string) option"

section \<open>\<^verbatim>\<open>core.ts\<close>\<close>

subsection \<open>Event routing by name\<close>

definition GLOBAL_EVENTS :: "string list" where
  "GLOBAL_EVENTS = [''hashchange'', ''popstate'']"

text \<open>
  \<^verbatim>\<open>Object.keys( events ).reduce( ..., { } )\<close>, with \<^verbatim>\<open>{ ...result, [event]: events[event] }\<close>
  as the update of an association list. A key that \<^verbatim>\<open>Object.keys\<close> returns is in the
  object, so the lookup finds it.
\<close>

definition localEvents_core :: "('s, 'd) Events \<Rightarrow> ('s, 'd) Events" where
  "localEvents_core events =
     foldl (\<lambda>result event.
         if event \<in> set GLOBAL_EVENTS then result
         else (case map_of events event of
                 None \<Rightarrow> result
               | Some h \<Rightarrow> AList.update event h result))
       [] (map fst events)"

definition globalEvents_core :: "('s, 'd) Events \<Rightarrow> ('s, 'd) Events" where
  "globalEvents_core events =
     foldl (\<lambda>result event.
         if \<not> event \<in> set GLOBAL_EVENTS then result
         else (case map_of events event of
                 None \<Rightarrow> result
               | Some h \<Rightarrow> AList.update event h result))
       [] (map fst events)"

subsection \<open>Emission\<close>

text \<open>\<^verbatim>\<open>record.emit.forEach( emitter => this.dispatchEvent( emitter( this._state ) ) )\<close>.\<close>

primrec forEach_emitter ::
  "target \<Rightarrow> ('s \<Rightarrow> 'd event) list \<Rightarrow> ('s, 'd, 'z) Component_scheme \<Rightarrow> ('s, 'd) world
     \<Rightarrow> ('s, 'd) world" where
  "forEach_emitter t [] c w = w"
| "forEach_emitter t (emitter # rest) c w =
     forEach_emitter t rest c (dispatchEvent t (emitter (state c)) w)"

text \<open>\<^verbatim>\<open>for ( const record of this._emit )\<close>.\<close>

primrec for_records ::
  "('s, 'd) EmitRecord list \<Rightarrow> 's \<Rightarrow> ('s, 'd, 'z) Component_scheme \<Rightarrow> ('s, 'd) world
     \<Rightarrow> ('s, 'd) world" where
  "for_records [] oldState c w = w"
| "for_records (record # rest) oldState c w =
     for_records rest oldState c
       (if when_pred record oldState (state c) then
          (case emit record of
             Many es \<Rightarrow> forEach_emitter This es c w
           | Single e \<Rightarrow> dispatchEvent This (e (state c)) w)
        else w)"

definition maybeEmitEvents ::
  "'s \<Rightarrow> ('s, 'd, 'z) Component_scheme \<times> ('s, 'd) world \<Rightarrow> ('s, 'd) world" where
  "maybeEmitEvents oldState cw =
     (case cw of (c, w) \<Rightarrow>
        (let w1 = w\<lparr>emitCalls := emitCalls w @ [(oldState, state c)]\<rparr> in
         case emitRecords c of
           None \<Rightarrow> w1
         | Some records \<Rightarrow> for_records records oldState c w1))"

subsection \<open>Commit\<close>

definition changeState ::
  "'s \<Rightarrow> ('s, 'd, 'z) Component_scheme \<times> ('s, 'd) world
     \<Rightarrow> ('s, 'd, 'z) Component_scheme \<times> ('s, 'd) world" where
  "changeState newState cw =
     (case cw of (c, w) \<Rightarrow>
        if state c = newState then (c, w)
        else
          (let oldState = state c;
               c1 = c\<lparr>state := newState\<rparr>;
               (c2, w2) = (if \<not> deferredRedraw c1
                           then (c1\<lparr>deferredRedraw := True\<rparr>, setTimeout w)
                           else (c1, w));
               w3 = maybeEmitEvents oldState (c2, w2);
               w4 = (if debug c2 then console_log oldState (state c2) w3 else w3)
           in (c2, w4)))"

subsection \<open>Redraw\<close>

definition redraw ::
  "morphdom \<Rightarrow> ('s, 'd, 'z) Component_scheme \<times> ('s, 'd) world
     \<Rightarrow> ('s, 'd, 'z) Component_scheme \<times> ('s, 'd) world" where
  "redraw md cw =
     (case cw of (c, w) \<Rightarrow>
        (let rendered = render c (state c);
             w1 = w\<lparr>renderCalls := renderCalls w @ [state c]\<rparr>
         in if isEqualNode (root c) rendered then (c, w1)
            else
              (let (c2, w2) =
                     (if nodeName (root c) \<noteq> nodeName rendered
                      then (c\<lparr>root := rendered\<rparr>, domOp (ReplaceWith (root c) rendered) w1)
                      else (c\<lparr>root := md (root c) rendered (\<lambda>fromEl toEl. \<not> isEqualNode fromEl toEl)\<rparr>,
                            domOp (Morphdom (root c) rendered) w1))
               in case viewupdated c2 of
                    None \<Rightarrow> (c2, w2)
                  | Some vu \<Rightarrow> changeState (vu (state c2) (root c2)) (c2, w2))))"

text \<open>
  The closure given to \<^verbatim>\<open>setTimeout\<close> in \<^verbatim>\<open>_changeState\<close>:
  \<^verbatim>\<open>() => { this._redraw(); this._deferredRedraw = false; }\<close>.
\<close>

definition deferredTask ::
  "morphdom \<Rightarrow> ('s, 'd, 'z) Component_scheme \<times> ('s, 'd) world
     \<Rightarrow> ('s, 'd, 'z) Component_scheme \<times> ('s, 'd) world" where
  "deferredTask md cw =
     (case redraw md cw of (c, w) \<Rightarrow> (c\<lparr>deferredRedraw := False\<rparr>, w))"

text \<open>The host takes the next queued task of the instance and runs it, if there is one.\<close>

definition runTask ::
  "morphdom \<Rightarrow> ('s, 'd, 'z) Component_scheme \<times> ('s, 'd) world
     \<Rightarrow> (('s, 'd, 'z) Component_scheme \<times> ('s, 'd) world) option" where
  "runTask md cw =
     (case cw of (c, w) \<Rightarrow>
        if timers w = 0 then None
        else Some (deferredTask md (c, w\<lparr>timers := timers w - 1\<rparr>)))"

subsection \<open>Event handlers\<close>

definition eventCall :: "event_call \<Rightarrow> ('s, 'd) world \<Rightarrow> ('s, 'd) world" where
  "eventCall x w = w\<lparr>eventCalls := eventCalls w @ [x]\<rparr>"

text \<open>
  The closure \<^verbatim>\<open>eventHandler\<close> of \<^verbatim>\<open>_bindEvents( events, shadowdom )\<close>. Calling a
  handler that \<^verbatim>\<open>events\<close> does not have is a \<^verbatim>\<open>TypeError\<close>.
\<close>

definition eventHandler ::
  "('s, 'd) Events \<Rightarrow> 'd event \<Rightarrow> ('s, 'd, 'z) Component_scheme \<times> ('s, 'd) world
     \<Rightarrow> error + ('s, 'd, 'z) Component_scheme \<times> ('s, 'd) world" where
  "eventHandler events event cw =
     (case cw of (c, w) \<Rightarrow>
        (let w1 = (if fst event \<in> set [''submit''] then eventCall (PreventDefault (fst event)) w
                   else w);
             w2 = eventCall (StopImmediatePropagation (fst event)) w1
         in case map_of events (fst event) of
              None \<Rightarrow> Inl TypeError
            | Some handler \<Rightarrow> Inr (changeState (handler (state c) event window) (c, w2))))"

definition globalEventHandler ::
  "'d event \<Rightarrow> ('s, 'd, 'z) Component_scheme \<times> ('s, 'd) world
     \<Rightarrow> error + ('s, 'd, 'z) Component_scheme \<times> ('s, 'd) world" where
  "globalEventHandler event cw =
     (case cw of (c, w) \<Rightarrow>
        (case map_of (globalEvents c) (fst event) of
           None \<Rightarrow> Inl TypeError
         | Some handler \<Rightarrow> Inr (changeState (handler (state c) event window) (c, w))))"

subsection \<open>Construction and mounting\<close>

text \<open>\<^verbatim>\<open>initialState: State | {( w: World ): State}\<close>.\<close>

datatype 's initial = Literal 's | Factory "World \<Rightarrow> 's"

record ('s, 'd, 'e) Args =
  arg_initialState :: "'s initial"
  arg_render :: "'s \<Rightarrow> node"
  arg_viewupdated :: "('s \<Rightarrow> node \<Rightarrow> 's) option"
  arg_events :: "'e option"
  arg_emit :: "('s, 'd) EmitRecord list option"
  arg_debug :: bool

text \<open>
  The type \<open>'e\<close> of \<^verbatim>\<open>events\<close> is \<^verbatim>\<open>Events\<close> in \<^verbatim>\<open>core.ts\<close> and \<^verbatim>\<open>EventRecords\<close> in
  \<^verbatim>\<open>index.ts\<close>, where \<^verbatim>\<open>debug\<close> is not an argument but an option. The mutation
  observer, the style sheet and \<^verbatim>\<open>props\<close> play no part in what follows and are left out
  of the constructor; \<^verbatim>\<open>_defineProps\<close> is modelled below.
\<close>

definition Component_core :: "('s, 'd, ('s, 'd) Events) Args \<Rightarrow> ('s, 'd) Component" where
  "Component_core args =
     \<lparr>state = (case arg_initialState args of Factory f \<Rightarrow> f window | Literal s \<Rightarrow> s),
      render = arg_render args,
      root = Element ''SPAN'' [] [],
      emitRecords = arg_emit args,
      globalEvents = (case arg_events args of None \<Rightarrow> [] | Some ev \<Rightarrow> globalEvents_core ev),
      localEvents = (case arg_events args of None \<Rightarrow> [] | Some ev \<Rightarrow> localEvents_core ev),
      debug = arg_debug args,
      deferredRedraw = False,
      viewupdated = arg_viewupdated args,
      connected = False,
      redrawMode = Update\<rparr>"

definition addListeners :: "string list \<Rightarrow> string list \<Rightarrow> string list" where
  "addListeners names ls = ls @ filter (\<lambda>n. n \<notin> set ls) (remdups names)"

definition connectedCallback ::
  "('s, 'd, 'z) Component_scheme \<times> ('s, 'd) world
     \<Rightarrow> ('s, 'd, 'z) Component_scheme \<times> ('s, 'd) world" where
  "connectedCallback cw =
     (case cw of (c, w) \<Rightarrow>
        (let c1 = c\<lparr>root := render c (state c)\<rparr>;
             w1 = appendChild (root c1) (w\<lparr>renderCalls := renderCalls w @ [state c]\<rparr>);
             w2 = w1\<lparr>shadowListeners := addListeners (map fst (localEvents c1)) (shadowListeners w1)\<rparr>;
             w3 = w2\<lparr>windowListeners := addListeners (map fst (globalEvents c1)) (windowListeners w2)\<rparr>
         in case viewupdated c1 of
              None \<Rightarrow> (c1, w3)
            | Some vu \<Rightarrow> changeState (vu (state c1) (root c1)) (c1, w3)))"

subsection \<open>Property projection\<close>

text \<open>
  \<^verbatim>\<open>Prop = Getter | Setter | Getter & Setter\<close>, where a \<^verbatim>\<open>Setter\<close> is
  \<^verbatim>\<open>{ set, predicate }\<close>.
\<close>

datatype ('s, 'v) Prop =
    Getter "'s \<Rightarrow> 'v"
  | Setter "'s \<Rightarrow> 'v \<Rightarrow> 's" "'v \<Rightarrow> bool"
  | GetterSetter "'s \<Rightarrow> 'v" "'s \<Rightarrow> 'v \<Rightarrow> 's" "'v \<Rightarrow> bool"

fun has_getter :: "('s, 'v) Prop \<Rightarrow> bool" where
  "has_getter (Getter _) = True"
| "has_getter (Setter _ _) = False"
| "has_getter (GetterSetter _ _ _) = True"

fun prop_get :: "('s, 'v) Prop \<Rightarrow> ('s \<Rightarrow> 'v) option" where
  "prop_get (Getter g) = Some g"
| "prop_get (Setter _ _) = None"
| "prop_get (GetterSetter g _ _) = Some g"

text \<open>
  A property descriptor: its \<^verbatim>\<open>get\<close> and \<^verbatim>\<open>set\<close> members, each possibly absent. The
  getter that \<^verbatim>\<open>_defineProps\<close> builds reads \<^verbatim>\<open>$this._state\<close> when it is called, so it
  is a function of the instance's state at that time. A \<^verbatim>\<open>set\<close> member would be called
  with the written value, inside the instance.
\<close>

record ('s, 'd, 'v) descriptor =
  desc_get :: "('s \<Rightarrow> 'v) option"
  desc_set :: "('v \<Rightarrow> ('s, 'd) Component \<times> ('s, 'd) world
                 \<Rightarrow> ('s, 'd) Component \<times> ('s, 'd) world) option"

type_synonym ('s, 'd, 'v) properties = "(string \<times> ('s, 'd, 'v) descriptor) list"

text \<open>
  \<^verbatim>\<open>for ( let [ name, prop ] of Object.entries( props ) )\<close>: \<^verbatim>\<open>desc\<close> starts as
  \<^verbatim>\<open>{}\<close>, gets a \<^verbatim>\<open>get\<close> member when the prop has a getter, and is installed with
  \<^verbatim>\<open>Object.defineProperty( this, name, desc )\<close>. The second argument is the table of the
  instance's own properties so far.
\<close>

definition defineProps ::
  "(string \<times> ('s, 'v) Prop) list \<Rightarrow> ('s, 'd, 'v) properties \<Rightarrow> ('s, 'd, 'v) properties" where
  "defineProps props own =
     foldl (\<lambda>tbl (name, prop).
         (let desc = \<lparr>desc_get = None, desc_set = None\<rparr>;
              desc1 = (if has_getter prop then desc\<lparr>desc_get := prop_get prop\<rparr> else desc)
          in AList.update name desc1 tbl))
       own props"

text \<open>
  Reading and writing a property of the instance from outside. A property without a
  getter reads as \<^verbatim>\<open>undefined\<close> (\<open>None\<close>). Assigning to a property that
  \<^verbatim>\<open>Object.defineProperty\<close> installed without a \<^verbatim>\<open>set\<close> member changes nothing and,
  in strict code, is a \<^verbatim>\<open>TypeError\<close>. A name that was never defined is an ordinary
  property of the element, outside the runtime.
\<close>

definition readProperty ::
  "string \<Rightarrow> ('s, 'd, 'v) properties \<Rightarrow> ('s, 'd) Component \<Rightarrow> 'v option" where
  "readProperty name own c =
     (case map_of own name of
        None \<Rightarrow> None
      | Some desc \<Rightarrow> (case desc_get desc of None \<Rightarrow> None | Some g \<Rightarrow> Some (g (state c))))"

definition writeProperty ::
  "string \<Rightarrow> 'v \<Rightarrow> ('s, 'd, 'v) properties \<Rightarrow> ('s, 'd) Component \<times> ('s, 'd) world
     \<Rightarrow> error + ('s, 'd) Component \<times> ('s, 'd) world" where
  "writeProperty name v own cw =
     (case map_of own name of
        None \<Rightarrow> Inr cw
      | Some desc \<Rightarrow> (case desc_set desc of None \<Rightarrow> Inl TypeError | Some f \<Rightarrow> Inr (f v cw)))"

subsection \<open>The form-capable component\<close>

definition validityDiffers :: "ValidityState \<Rightarrow> ValidityStateFlags \<Rightarrow> bool" where
  "validityDiffers v flags =
     (v valueMissing \<noteq> nullish (flags valueMissing) False \<or>
      v stepMismatch \<noteq> nullish (flags stepMismatch) False \<or>
      v badInput \<noteq> nullish (flags badInput) False \<or>
      v customError \<noteq> nullish (flags customError) False \<or>
      v patternMismatch \<noteq> nullish (flags patternMismatch) False \<or>
      v rangeOverflow \<noteq> nullish (flags rangeOverflow) False \<or>
      v rangeUnderflow \<noteq> nullish (flags rangeUnderflow) False \<or>
      v tooLong \<noteq> nullish (flags tooLong) False \<or>
      v tooShort \<noteq> nullish (flags tooShort) False \<or>
      v typeMismatch \<noteq> nullish (flags typeMismatch) False)"

text \<open>
  \<^verbatim>\<open>_maybeValidate\<close> and the commit of the form-capable instance give the instance and
  the world after the call, and the exception that \<^verbatim>\<open>setValidity\<close> raised, if any: the
  call of \<^verbatim>\<open>setValidity\<close> is the last thing either does, so the exception leaves with
  the commit already made.
\<close>

definition maybeValidate ::
  "('s, 'd, 'z) FormComponent_scheme \<times> ('s, 'd) world \<Rightarrow> ('s, 'd) world \<times> error option" where
  "maybeValidate cw =
     (case cw of (c, w) \<Rightarrow>
        (case validate c of
           None \<Rightarrow> (w, None)
         | Some v \<Rightarrow>
             (case v (state c) of (flags, message) \<Rightarrow>
                if validityDiffers (validity w) flags
                then setValidity flags message (root c) w
                else (w, None))))"

definition FormComponent_changeState ::
  "'s \<Rightarrow> ('s, 'd, 'z) FormComponent_scheme \<times> ('s, 'd) world
     \<Rightarrow> (('s, 'd, 'z) FormComponent_scheme \<times> ('s, 'd) world) \<times> error option" where
  "FormComponent_changeState newState cw =
     (case changeState newState cw of (c, w) \<Rightarrow>
        (let w1 = setFormValue (formValue c (state c)) w
         in case maybeValidate (c, w1) of (w2, raised) \<Rightarrow> ((c, w2), raised)))"

text \<open>
  The constructor of \<^verbatim>\<open>_FormComponent\<close> in \<^verbatim>\<open>core.ts\<close>: the base constructor, the two
  fields, and the first push of the form value.
\<close>

definition FormComponent_core ::
  "('s, 'd, ('s, 'd) Events) Args \<Rightarrow> ('s \<Rightarrow> string) \<Rightarrow> ('s \<Rightarrow> ValidityStateFlags \<times> string) option
     \<Rightarrow> ('s, 'd) world \<Rightarrow> ('s, 'd) FormComponent \<times> ('s, 'd) world" where
  "FormComponent_core args fv vd w =
     (let c = Component.extend (Component_core args) (FormComponent.fields fv vd)
      in (c, setFormValue (formValue c (state c)) w))"

section \<open>\<^verbatim>\<open>index.ts\<close>, latest revision\<close>

text \<open>
  The file holds the runtime a second time, reworked: handlers carry their channel, the
  instance knows whether it is connected, and a redraw mode can force replacement. What
  is unchanged (\<^verbatim>\<open>_defineProps\<close>, \<^verbatim>\<open>_validityDiffers\<close>) is not repeated.
\<close>

subsection \<open>Event routing by declared channel\<close>

definition localEvents_index :: "('s, 'd) EventRecords \<Rightarrow> ('s, 'd) Events" where
  "localEvents_index events =
     foldl (\<lambda>result event.
         (case map_of events event of
            None \<Rightarrow> result
          | Some (Bare h) \<Rightarrow> AList.update event h result
          | Some (Channelled h ch) \<Rightarrow>
              if ch = Local then AList.update event h result else result))
       [] (map fst events)"

definition globalEvents_index :: "('s, 'd) EventRecords \<Rightarrow> ('s, 'd) Events" where
  "globalEvents_index events =
     foldl (\<lambda>result event.
         (case map_of events event of
            None \<Rightarrow> result
          | Some (Bare h) \<Rightarrow> result
          | Some (Channelled h ch) \<Rightarrow>
              if ch = Global then AList.update event h result else result))
       [] (map fst events)"

subsection \<open>Emission\<close>

primrec for_records_index ::
  "('s, 'd) EmitRecord list \<Rightarrow> 's \<Rightarrow> ('s, 'd, 'z) Component_scheme \<Rightarrow> ('s, 'd) world
     \<Rightarrow> ('s, 'd) world" where
  "for_records_index [] oldState c w = w"
| "for_records_index (record # rest) oldState c w =
     for_records_index rest oldState c
       (if when_pred record oldState (state c) then
          (let channel = (if channel record = Some Global then Window else This) in
           case emit record of
             Many es \<Rightarrow> forEach_emitter channel es c w
           | Single e \<Rightarrow> dispatchEvent channel (e (state c)) w)
        else w)"

definition maybeEmitEvents_index ::
  "'s \<Rightarrow> ('s, 'd, 'z) Component_scheme \<times> ('s, 'd) world \<Rightarrow> ('s, 'd) world" where
  "maybeEmitEvents_index oldState cw =
     (case cw of (c, w) \<Rightarrow>
        (let w1 = w\<lparr>emitCalls := emitCalls w @ [(oldState, state c)]\<rparr> in
         case emitRecords c of
           None \<Rightarrow> w1
         | Some records \<Rightarrow> for_records_index records oldState c w1))"

subsection \<open>Commit\<close>

definition changeState_index ::
  "'s \<Rightarrow> ('s, 'd, 'z) Component_scheme \<times> ('s, 'd) world
     \<Rightarrow> ('s, 'd, 'z) Component_scheme \<times> ('s, 'd) world" where
  "changeState_index newState cw =
     (case cw of (c, w) \<Rightarrow>
        if state c = newState then (c, w)
        else
          (let oldState = state c;
               c1 = c\<lparr>state := newState\<rparr>;
               (c2, w2) = (if \<not> deferredRedraw c1
                           then (c1\<lparr>deferredRedraw := True\<rparr>, setTimeout w)
                           else (c1, w));
               w3 = maybeEmitEvents_index oldState (c2, w2);
               w4 = (if debug c2 then console_log oldState (state c2) w3 else w3)
           in (c2, w4)))"

subsection \<open>Redraw\<close>

definition redraw_index ::
  "morphdom \<Rightarrow> ('s, 'd, 'z) Component_scheme \<times> ('s, 'd) world
     \<Rightarrow> ('s, 'd, 'z) Component_scheme \<times> ('s, 'd) world" where
  "redraw_index md cw =
     (case cw of (c, w) \<Rightarrow>
        if \<not> connected c then (c, w)
        else
          (let rendered = render c (state c);
               w1 = w\<lparr>renderCalls := renderCalls w @ [state c]\<rparr>
           in if isEqualNode (root c) rendered then (c, w1)
              else
                (let (c2, w2) =
                       (if redrawMode c = Replace \<or> nodeName (root c) \<noteq> nodeName rendered
                        then (c\<lparr>root := rendered\<rparr>, domOp (ReplaceWith (root c) rendered) w1)
                        else (c\<lparr>root := md (root c) rendered (\<lambda>fromEl toEl. \<not> isEqualNode fromEl toEl)\<rparr>,
                              domOp (Morphdom (root c) rendered) w1))
                 in case viewupdated c2 of
                      None \<Rightarrow> (c2, w2)
                    | Some vu \<Rightarrow> changeState_index (vu (state c2) (root c2)) (c2, w2))))"

definition deferredTask_index ::
  "morphdom \<Rightarrow> ('s, 'd, 'z) Component_scheme \<times> ('s, 'd) world
     \<Rightarrow> ('s, 'd, 'z) Component_scheme \<times> ('s, 'd) world" where
  "deferredTask_index md cw =
     (case redraw_index md cw of (c, w) \<Rightarrow> (c\<lparr>deferredRedraw := False\<rparr>, w))"

definition runTask_index ::
  "morphdom \<Rightarrow> ('s, 'd, 'z) Component_scheme \<times> ('s, 'd) world
     \<Rightarrow> (('s, 'd, 'z) Component_scheme \<times> ('s, 'd) world) option" where
  "runTask_index md cw =
     (case cw of (c, w) \<Rightarrow>
        if timers w = 0 then None
        else Some (deferredTask_index md (c, w\<lparr>timers := timers w - 1\<rparr>)))"

subsection \<open>Event handlers\<close>

definition localEventHandler_index ::
  "'d event \<Rightarrow> ('s, 'd, 'z) Component_scheme \<times> ('s, 'd) world
     \<Rightarrow> error + ('s, 'd, 'z) Component_scheme \<times> ('s, 'd) world" where
  "localEventHandler_index event cw =
     (case cw of (c, w) \<Rightarrow>
        (let w1 = (if fst event \<in> set [''submit''] then eventCall (PreventDefault (fst event)) w
                   else w);
             w2 = eventCall (StopImmediatePropagation (fst event)) w1
         in case map_of (localEvents c) (fst event) of
              None \<Rightarrow> Inl TypeError
            | Some handler \<Rightarrow> Inr (changeState_index (handler (state c) event window) (c, w2))))"

definition globalEventHandler_index ::
  "'d event \<Rightarrow> ('s, 'd, 'z) Component_scheme \<times> ('s, 'd) world
     \<Rightarrow> error + ('s, 'd, 'z) Component_scheme \<times> ('s, 'd) world" where
  "globalEventHandler_index event cw =
     (case cw of (c, w) \<Rightarrow>
        (case map_of (globalEvents c) (fst event) of
           None \<Rightarrow> Inl TypeError
         | Some handler \<Rightarrow> Inr (changeState_index (handler (state c) event window) (c, w))))"

subsection \<open>Construction and mounting\<close>

text \<open>
  \<^verbatim>\<open>Options\<close>: \<^verbatim>\<open>debug\<close> and \<^verbatim>\<open>redrawMode\<close>; the style sheet and the DOM mode are left
  out, as is \<^verbatim>\<open>domchange\<close>. \<open>arg_debug\<close> is not read: here the flag is an option.
\<close>

record Options =
  opt_debug :: bool
  opt_redrawMode :: "RedrawMode option"

definition Component_index ::
  "('s, 'd, ('s, 'd) EventRecords) Args \<Rightarrow> Options option \<Rightarrow> ('s, 'd) Component" where
  "Component_index args options =
     \<lparr>state = (case arg_initialState args of Factory f \<Rightarrow> f window | Literal s \<Rightarrow> s),
      render = arg_render args,
      root = Element ''SPAN'' [] [],
      emitRecords = arg_emit args,
      globalEvents = (case arg_events args of None \<Rightarrow> [] | Some ev \<Rightarrow> globalEvents_index ev),
      localEvents = (case arg_events args of None \<Rightarrow> [] | Some ev \<Rightarrow> localEvents_index ev),
      debug = (case options of None \<Rightarrow> False | Some opts \<Rightarrow> opt_debug opts),
      deferredRedraw = False,
      viewupdated = arg_viewupdated args,
      connected = False,
      redrawMode = (case options of
                      None \<Rightarrow> Update
                    | Some opts \<Rightarrow> nullish (opt_redrawMode opts) Update)\<rparr>"

definition connectedCallback_index ::
  "('s, 'd, 'z) Component_scheme \<times> ('s, 'd) world
     \<Rightarrow> ('s, 'd, 'z) Component_scheme \<times> ('s, 'd) world" where
  "connectedCallback_index cw =
     (case cw of (c, w) \<Rightarrow>
        (let c1 = c\<lparr>root := render c (state c)\<rparr>;
             w1 = appendChild (root c1) (w\<lparr>renderCalls := renderCalls w @ [state c]\<rparr>);
             w2 = w1\<lparr>shadowListeners := addListeners (map fst (localEvents c1)) (shadowListeners w1)\<rparr>;
             w3 = w2\<lparr>windowListeners := addListeners (map fst (globalEvents c1)) (windowListeners w2)\<rparr>;
             c2 = c1\<lparr>connected := True\<rparr>
         in case viewupdated c2 of
              None \<Rightarrow> (c2, w3)
            | Some vu \<Rightarrow> changeState_index (vu (state c2) (root c2)) (c2, w3)))"

subsection \<open>The form-capable component\<close>

definition maybeValidate_index ::
  "('s, 'd, 'z) FormComponent_scheme \<times> ('s, 'd) world \<Rightarrow> ('s, 'd) world \<times> error option" where
  "maybeValidate_index cw =
     (case cw of (c, w) \<Rightarrow>
        if connected c then
          (case validate c of
             None \<Rightarrow> (w, None)
           | Some v \<Rightarrow>
               (case v (state c) of (flags, message) \<Rightarrow>
                  if validityDiffers (validity w) flags
                  then setValidity flags message (root c) w
                  else (w, None)))
        else (w, None))"

definition FormComponent_changeState_index ::
  "'s \<Rightarrow> ('s, 'd, 'z) FormComponent_scheme \<times> ('s, 'd) world
     \<Rightarrow> (('s, 'd, 'z) FormComponent_scheme \<times> ('s, 'd) world) \<times> error option" where
  "FormComponent_changeState_index newState cw =
     (case changeState_index newState cw of (c, w) \<Rightarrow>
        (let w1 = setFormValue (formValue c (state c)) w
         in case maybeValidate_index (c, w1) of (w2, raised) \<Rightarrow> ((c, w2), raised)))"

text \<open>The constructor of \<^verbatim>\<open>_FormComponent\<close> in \<^verbatim>\<open>index.ts\<close>.\<close>

definition FormComponent_index ::
  "('s, 'd, ('s, 'd) EventRecords) Args \<Rightarrow> Options option \<Rightarrow> ('s \<Rightarrow> string)
     \<Rightarrow> ('s \<Rightarrow> ValidityStateFlags \<times> string) option
     \<Rightarrow> ('s, 'd) world \<Rightarrow> ('s, 'd) FormComponent \<times> ('s, 'd) world" where
  "FormComponent_index args options fv vd w =
     (let c = Component.extend (Component_index args options) (FormComponent.fields fv vd)
      in (c, setFormValue (formValue c (state c)) w))"

section \<open>What the iterations compute\<close>

text \<open>The events one emission pass dispatches, as a list: the specification of the iteration.\<close>

fun emitter_list :: "('s, 'd) emitters \<Rightarrow> ('s \<Rightarrow> 'd event) list" where
  "emitter_list (Single e) = [e]"
| "emitter_list (Many es) = es"

definition emitted ::
  "(('s, 'd) EmitRecord \<Rightarrow> target) \<Rightarrow> ('s, 'd) EmitRecord list \<Rightarrow> 's \<Rightarrow> 's
     \<Rightarrow> (target \<times> 'd event) list" where
  "emitted tgt records os ns =
     concat (map (\<lambda>r. map (\<lambda>e. (tgt r, e ns)) (emitter_list (emit r)))
                 (filter (\<lambda>r. when_pred r os ns) records))"

text \<open>The same for the optional list \<^verbatim>\<open>_emit\<close> of an instance.\<close>

definition emitted_opt ::
  "(('s, 'd) EmitRecord \<Rightarrow> target) \<Rightarrow> ('s, 'd) EmitRecord list option \<Rightarrow> 's \<Rightarrow> 's
     \<Rightarrow> (target \<times> 'd event) list" where
  "emitted_opt tgt rs os ns = (case rs of None \<Rightarrow> [] | Some records \<Rightarrow> emitted tgt records os ns)"

text \<open>The target of a record in \<^verbatim>\<open>index.ts\<close>.\<close>

definition target_index :: "('s, 'd) EmitRecord \<Rightarrow> target" where
  "target_index r = (if channel r = Some Global then Window else This)"

text \<open>
  The channel a declared record of \<^verbatim>\<open>index.ts\<close> puts its handler in: the specification
  of \<^verbatim>\<open>localEvents\<close> and \<^verbatim>\<open>globalEvents\<close> there.
\<close>

fun local_of :: "('s, 'd) EventRecord \<Rightarrow> ('s, 'd) EventHandler option" where
  "local_of (Bare h) = Some h"
| "local_of (Channelled h ch) = (if ch = Local then Some h else None)"

fun global_of :: "('s, 'd) EventRecord \<Rightarrow> ('s, 'd) EventHandler option" where
  "global_of (Bare h) = None"
| "global_of (Channelled h ch) = (if ch = Global then Some h else None)"

text \<open>The (previous, next) pairs of the commits of a sequence that change the state.\<close>

fun transitions :: "'s \<Rightarrow> 's list \<Rightarrow> ('s \<times> 's) list" where
  "transitions cur [] = []"
| "transitions cur (s # ss) =
     (if s = cur then transitions cur ss else (cur, s) # transitions s ss)"

text \<open>Commits issued one after the other, with no task of the host run in between.\<close>

definition commits ::
  "'s list \<Rightarrow> ('s, 'd, 'z) Component_scheme \<times> ('s, 'd) world
     \<Rightarrow> ('s, 'd, 'z) Component_scheme \<times> ('s, 'd) world" where
  "commits ss cw = foldl (\<lambda>cw s. changeState s cw) cw ss"

section \<open>Example instances\<close>

text \<open>
  The counter of the end-to-end scenario: initial state 0, an \<^verbatim>\<open>increment\<close> handler,
  one emission record that fires when the new state has reached 3 and whose event
  carries the state. \<open>morph_to\<close> is a \<^verbatim>\<open>morphdom\<close> that makes the mounted tree equal
  to the candidate.
\<close>

definition increment :: "(int, int) EventHandler" where
  "increment s e w = s + 1"

definition counter_args :: "'e \<Rightarrow> (int, int, 'e) Args" where
  "counter_args events =
     \<lparr>arg_initialState = Literal 0,
      arg_render = (\<lambda>s. Element ''SPAN'' [] [Text (if 3 \<le> s then ''done'' else ''counting'')]),
      arg_viewupdated = None,
      arg_events = Some events,
      arg_emit = Some [\<lparr>when_pred = (\<lambda>os ns. 3 \<le> ns),
                        emit = Single (\<lambda>s. (''reachedThree'', s)),
                        channel = None\<rparr>],
      arg_debug = False\<rparr>"

definition counter :: "(int, int) Component" where
  "counter = Component_core (counter_args [(''increment'', increment)])"

definition morph_to :: morphdom where
  "morph_to fromNode toNode onBeforeElUpdated = toNode"

text \<open>
  An instance whose post-render hook corrects the state: \<^verbatim>\<open>viewupdated\<close> turns state 1
  into state 2 and leaves every other state alone. States 0 and 1 render different
  trees of the same kind, every other state a tree of another kind.
\<close>

definition label :: "int \<Rightarrow> node" where
  "label s =
     (if s = 0 then Element ''SPAN'' [] [Text ''zero'']
      else if s = 1 then Element ''SPAN'' [] [Text ''one'']
      else Element ''DIV'' [(''class'', ''many'')] [])"

definition measuring_args :: "int \<Rightarrow> (int, int, 'e) Args" where
  "measuring_args s0 =
     \<lparr>arg_initialState = Literal s0,
      arg_render = label,
      arg_viewupdated = Some (\<lambda>s elem. if s = 1 then 2 else s),
      arg_events = None,
      arg_emit = None,
      arg_debug = False\<rparr>"

text \<open>
  The measuring instance after it was mounted in state 0 and then committed to a state,
  in either file; \<open>replace_options\<close> asks \<^verbatim>\<open>index.ts\<close> for the redraw mode
  \<^verbatim>\<open>"replace"\<close>.
\<close>

definition replace_options :: Options where
  "replace_options = \<lparr>opt_debug = False, opt_redrawMode = Some Replace\<rparr>"

definition mounted_core :: "int \<Rightarrow> (int, int) Component \<times> (int, int) world" where
  "mounted_core s =
     changeState s (connectedCallback (Component_core (measuring_args 0), initial_world))"

definition mounted_index ::
  "Options option \<Rightarrow> int \<Rightarrow> (int, int) Component \<times> (int, int) world" where
  "mounted_index options s =
     changeState_index s
       (connectedCallback_index (Component_index (measuring_args 0) options, initial_world))"

text \<open>The counter built by the constructor of \<^verbatim>\<open>index.ts\<close>, and the event sent to it.\<close>

definition counter_index :: "(int, int) Component" where
  "counter_index = Component_index (counter_args [(''increment'', Bare increment)]) None"

definition increment_event :: "int event" where
  "increment_event = (''increment'', 0)"

text \<open>
  A required field: whatever the state, \<^verbatim>\<open>validate\<close> returns the flags
  \<^verbatim>\<open>{ valueMissing: true }\<close> and a message.
\<close>

definition required_args :: "(int, int, 'e) Args" where
  "required_args =
     \<lparr>arg_initialState = Literal 0, arg_render = label, arg_viewupdated = None,
      arg_events = None, arg_emit = None, arg_debug = False\<rparr>"

definition required_validate :: "int \<Rightarrow> ValidityStateFlags \<times> string" where
  "required_validate s = ([valueMissing \<mapsto> True], ''required'')"

definition required_formValue :: "int \<Rightarrow> string" where
  "required_formValue s = (if s = 0 then ''zero'' else ''other'')"

definition required_field :: "(int, int) FormComponent \<times> (int, int) world" where
  "required_field =
     FormComponent_core required_args required_formValue (Some required_validate) initial_world"

definition required_field_index :: "(int, int) FormComponent \<times> (int, int) world" where
  "required_field_index =
     FormComponent_index required_args None required_formValue (Some required_validate)
       initial_world"

text \<open>
  The required field after the host has mounted it. \<^verbatim>\<open>connectedCallback\<close> commits only
  through the \<^verbatim>\<open>viewupdated\<close> hook, which this instance does not have, so the function of
  the base class is all that runs on it.
\<close>

definition mounted_required :: "(int, int) FormComponent \<times> (int, int) world" where
  "mounted_required = connectedCallback required_field"

definition mounted_required_index :: "(int, int) FormComponent \<times> (int, int) world" where
  "mounted_required_index = connectedCallback_index required_field_index"

text \<open>
  A projection \<^verbatim>\<open>value\<close> with a getter, a setter and a guard, and the properties that
  \<^verbatim>\<open>_defineProps\<close> installs for it on a fresh instance.
\<close>

definition value_props :: "(string \<times> (int, int) Prop) list" where
  "value_props = [(''value'', GetterSetter (\<lambda>s. s) (\<lambda>s v. v) (\<lambda>v. 0 \<le> v))]"

definition value_properties :: "(int, int, int) properties" where
  "value_properties = defineProps value_props []"

section \<open>Properties\<close>

subsection \<open>Iteration and commit, in closed form\<close>

lemma forEach_emitter_eq:
  "forEach_emitter t es c w = w\<lparr>dispatched := dispatched w @ map (\<lambda>e. (t, e (state c))) es\<rparr>"
  by (induction es arbitrary: w) (simp_all add: dispatchEvent_def)

lemma for_records_eq:
  "for_records records os c w =
     w\<lparr>dispatched := dispatched w @ emitted (\<lambda>_. This) records os (state c)\<rparr>"
proof (induction records arbitrary: w)
  case Nil
  show ?case by (simp add: emitted_def)
next
  case (Cons r rs)
  show ?case
    by (cases "emit r")
       (simp_all add: Cons.IH emitted_def forEach_emitter_eq dispatchEvent_def)
qed

lemma for_records_index_eq:
  "for_records_index records os c w =
     w\<lparr>dispatched := dispatched w @ emitted target_index records os (state c)\<rparr>"
proof (induction records arbitrary: w)
  case Nil
  show ?case by (simp add: emitted_def)
next
  case (Cons r rs)
  show ?case
    by (cases "emit r")
       (simp_all add: Cons.IH emitted_def forEach_emitter_eq dispatchEvent_def target_index_def Let_def)
qed

lemma maybeEmitEvents_eq:
  "maybeEmitEvents os (c, w) =
     w\<lparr>emitCalls := emitCalls w @ [(os, state c)],
       dispatched := dispatched w @ emitted_opt (\<lambda>_. This) (emitRecords c) os (state c)\<rparr>"
  by (simp add: maybeEmitEvents_def emitted_opt_def for_records_eq split: option.splits)

lemma changeState_same: "state c = s \<Longrightarrow> changeState s (c, w) = (c, w)"
  by (simp add: changeState_def)

lemma changeState_diff:
  "state c \<noteq> s \<Longrightarrow> changeState s (c, w) =
     (c\<lparr>state := s, deferredRedraw := True\<rparr>,
      w\<lparr>timers := (if deferredRedraw c then timers w else Suc (timers w)),
        emitCalls := emitCalls w @ [(state c, s)],
        dispatched := dispatched w @ emitted_opt (\<lambda>_. This) (emitRecords c) (state c) s,
        consoleLog := consoleLog w @ (if debug c then [(state c, s)] else [])\<rparr>)"
  by (simp add: changeState_def maybeEmitEvents_eq setTimeout_def console_log_def Let_def)

lemma maybeEmitEvents_index_eq:
  "maybeEmitEvents_index os (c, w) =
     w\<lparr>emitCalls := emitCalls w @ [(os, state c)],
       dispatched := dispatched w @ emitted_opt target_index (emitRecords c) os (state c)\<rparr>"
  by (simp add: maybeEmitEvents_index_def emitted_opt_def for_records_index_eq split: option.splits)

lemma changeState_index_same: "state c = s \<Longrightarrow> changeState_index s (c, w) = (c, w)"
  by (simp add: changeState_index_def)

lemma changeState_index_diff:
  "state c \<noteq> s \<Longrightarrow> changeState_index s (c, w) =
     (c\<lparr>state := s, deferredRedraw := True\<rparr>,
      w\<lparr>timers := (if deferredRedraw c then timers w else Suc (timers w)),
        emitCalls := emitCalls w @ [(state c, s)],
        dispatched := dispatched w @ emitted_opt target_index (emitRecords c) (state c) s,
        consoleLog := consoleLog w @ (if debug c then [(state c, s)] else [])\<rparr>)"
  by (simp add: changeState_index_def maybeEmitEvents_index_eq setTimeout_def console_log_def Let_def)

lemma maybeValidate_frame:
  "timers (fst (maybeValidate (c, w))) = timers w"
  "emitCalls (fst (maybeValidate (c, w))) = emitCalls w"
  "dispatched (fst (maybeValidate (c, w))) = dispatched w"
  "formValues (fst (maybeValidate (c, w))) = formValues w"
  by (simp_all add: maybeValidate_def setValidity_def Let_def split: option.splits prod.splits)

lemma maybeValidate_index_frame:
  "timers (fst (maybeValidate_index (c, w))) = timers w"
  "emitCalls (fst (maybeValidate_index (c, w))) = emitCalls w"
  "dispatched (fst (maybeValidate_index (c, w))) = dispatched w"
  "formValues (fst (maybeValidate_index (c, w))) = formValues w"
  by (simp_all add: maybeValidate_index_def setValidity_def Let_def
      split: option.splits prod.splits)

subsection \<open>Commit\<close>

text \<open>
  C1. A commit of the state the instance already holds returns at once: the instance and
  the world are what they were, so no task is queued, no emission pass is entered and the
  state is kept; this holds for \<^verbatim>\<open>_changeState\<close> of both files. Hence committing \<open>s\<close>
  twice in a row is committing it once: at most one more task is queued, and emission
  is entered once, for the pair (previous state, \<open>s\<close>), the first call being the commit
  of a new state (when \<open>s\<close> is already the state, both calls are the no-op above). In a
  form-capable instance too, such a commit queues nothing, enters no emission pass and
  keeps the instance.
\<close>

theorem identity_commit_is_noop:
  fixes c :: "('s, 'd, 'z) Component_scheme" and w :: "('s, 'd) world"
    and fc :: "('s, 'd, 'y) FormComponent_scheme"
  shows "changeState (state c) (c, w) = (c, w)
    \<and> changeState_index (state c) (c, w) = (c, w)
    \<and> changeState s (changeState s (c, w)) = changeState s (c, w)
    \<and> changeState_index s (changeState_index s (c, w)) = changeState_index s (c, w)
    \<and> timers (snd (changeState s (changeState s (c, w)))) \<le> Suc (timers w)
    \<and> timers (snd (changeState_index s (changeState_index s (c, w)))) \<le> Suc (timers w)
    \<and> emitCalls (snd (changeState s (changeState s (c, w))))
        = emitCalls w @ (if state c = s then [] else [(state c, s)])
    \<and> emitCalls (snd (changeState_index s (changeState_index s (c, w))))
        = emitCalls w @ (if state c = s then [] else [(state c, s)])
    \<and> fst (fst (FormComponent_changeState (state fc) (fc, w))) = fc
    \<and> timers (snd (fst (FormComponent_changeState (state fc) (fc, w)))) = timers w
    \<and> emitCalls (snd (fst (FormComponent_changeState (state fc) (fc, w)))) = emitCalls w
    \<and> fst (fst (FormComponent_changeState_index (state fc) (fc, w))) = fc
    \<and> timers (snd (fst (FormComponent_changeState_index (state fc) (fc, w)))) = timers w
    \<and> emitCalls (snd (fst (FormComponent_changeState_index (state fc) (fc, w)))) = emitCalls w"
proof -
  have twice: "changeState s (changeState s (c, w)) = changeState s (c, w)"
    by (cases "state c = s") (simp_all add: changeState_same changeState_diff)
  have twice_index:
    "changeState_index s (changeState_index s (c, w)) = changeState_index s (c, w)"
    by (cases "state c = s") (simp_all add: changeState_index_same changeState_index_diff)
  have t: "timers (snd (changeState s (c, w))) \<le> Suc (timers w)"
    by (cases "state c = s") (simp_all add: changeState_same changeState_diff)
  have t_index: "timers (snd (changeState_index s (c, w))) \<le> Suc (timers w)"
    by (cases "state c = s") (simp_all add: changeState_index_same changeState_index_diff)
  have e: "emitCalls (snd (changeState s (c, w)))
             = emitCalls w @ (if state c = s then [] else [(state c, s)])"
    by (cases "state c = s") (simp_all add: changeState_same changeState_diff)
  have e_index: "emitCalls (snd (changeState_index s (c, w)))
             = emitCalls w @ (if state c = s then [] else [(state c, s)])"
    by (cases "state c = s") (simp_all add: changeState_index_same changeState_index_diff)
  have f: "fst (FormComponent_changeState (state fc) (fc, w))
             = (fc, fst (maybeValidate (fc, setFormValue (formValue fc (state fc)) w)))"
    by (simp add: FormComponent_changeState_def changeState_same split: prod.splits)
  have f_index: "fst (FormComponent_changeState_index (state fc) (fc, w))
             = (fc, fst (maybeValidate_index (fc, setFormValue (formValue fc (state fc)) w)))"
    by (simp add: FormComponent_changeState_index_def changeState_index_same split: prod.splits)
  show ?thesis
    unfolding twice twice_index f f_index
    using t t_index e e_index
    by (simp add: changeState_same changeState_index_same maybeValidate_frame
        maybeValidate_index_frame setFormValue_def)
qed

subsection \<open>Coalescing\<close>

lemma commits_Nil: "commits [] cw = cw"
  by (simp add: commits_def)

lemma commits_Cons: "commits (s # ss) cw = commits ss (changeState s cw)"
  by (simp add: commits_def)

lemma commits_state: "state (fst (commits ss (c, w))) = last (state c # ss)"
proof (induction ss arbitrary: c w)
  case Nil
  show ?case by (simp add: commits_Nil)
next
  case (Cons s ss)
  show ?case
    by (cases "state c = s") (simp_all add: commits_Cons changeState_same changeState_diff Cons.IH)
qed

lemma commits_deferredRedraw:
  "deferredRedraw (fst (commits ss (c, w))) = (deferredRedraw c \<or> transitions (state c) ss \<noteq> [])"
proof (induction ss arbitrary: c w)
  case Nil
  show ?case by (simp add: commits_Nil)
next
  case (Cons s ss)
  show ?case
    by (cases "state c = s") (simp_all add: commits_Cons changeState_same changeState_diff Cons.IH)
qed

lemma commits_timers:
  "timers (snd (commits ss (c, w))) =
     (if deferredRedraw c \<or> transitions (state c) ss = [] then timers w else Suc (timers w))"
proof (induction ss arbitrary: c w)
  case Nil
  show ?case by (simp add: commits_Nil)
next
  case (Cons s ss)
  show ?case
    by (cases "state c = s") (simp_all add: commits_Cons changeState_same changeState_diff Cons.IH)
qed

lemma commits_emitCalls:
  "emitCalls (snd (commits ss (c, w))) = emitCalls w @ transitions (state c) ss"
proof (induction ss arbitrary: c w)
  case Nil
  show ?case by (simp add: commits_Nil)
next
  case (Cons s ss)
  show ?case
    by (cases "state c = s") (simp_all add: commits_Cons changeState_same changeState_diff Cons.IH)
qed

lemma commits_renderCalls:
  "renderCalls (snd (commits ss (c, w))) = renderCalls w"
proof (induction ss arbitrary: c w)
  case Nil
  show ?case by (simp add: commits_Nil)
next
  case (Cons s ss)
  show ?case
    by (cases "state c = s") (simp_all add: commits_Cons changeState_same changeState_diff Cons.IH)
qed

lemma commits_dispatched:
  "dispatched (snd (commits ss (c, w))) =
     dispatched w @ concat (map (\<lambda>(os, ns). emitted_opt (\<lambda>_. This) (emitRecords c) os ns)
                                (transitions (state c) ss))"
proof (induction ss arbitrary: c w)
  case Nil
  show ?case by (simp add: commits_Nil)
next
  case (Cons s ss)
  show ?case
    by (cases "state c = s") (simp_all add: commits_Cons changeState_same changeState_diff Cons.IH)
qed

lemma changeState_renderCalls:
  "renderCalls (snd (changeState s (c, w))) = renderCalls w"
  by (cases "state c = s") (simp_all add: changeState_same changeState_diff)

lemma changeState_timers_pending:
  "deferredRedraw c \<Longrightarrow> timers (snd (changeState s (c, w))) = timers w"
  by (cases "state c = s") (simp_all add: changeState_same changeState_diff)

lemma redraw_renderCalls:
  "renderCalls (snd (redraw md (c, w))) = renderCalls w @ [state c]"
  by (simp add: redraw_def Let_def domOp_def changeState_renderCalls split: option.splits)

lemma redraw_timers_pending:
  "deferredRedraw c \<Longrightarrow> timers (snd (redraw md (c, w))) = timers w"
  by (simp add: redraw_def Let_def domOp_def changeState_timers_pending split: option.splits)

lemma deferredTask_snd: "snd (deferredTask md cw) = snd (redraw md cw)"
  by (simp add: deferredTask_def split: prod.splits)

lemma deferredTask_flag: "\<not> deferredRedraw (fst (deferredTask md cw))"
  by (simp add: deferredTask_def split: prod.splits)

text \<open>
  C2. Take an instance of \<^verbatim>\<open>core.ts\<close> whose queue holds one task when its pending flag
  is set and none otherwise, as a new instance does, and any sequence \<open>ss\<close> of commits
  issued with no task run in between. After every prefix of the sequence at most one
  task is queued, and after the whole sequence the queue again holds one task when the
  flag is set and none otherwise. The flag is set afterwards when it was set before or
  some commit changed the state: the first such commit queued the task and no later one
  queued another. No render happened during the sequence; the instance holds the last
  state committed; emission was entered once for each commit that changed the state,
  with that commit's own (previous, next) pair, and dispatched what its records give for
  that pair. When a redraw is pending, the host finds the task, its run renders once,
  with the last state committed, and the queue again agrees with the flag.
\<close>

theorem commits_coalesce:
  fixes c :: "('s, 'd, 'z) Component_scheme" and w :: "('s, 'd) world"
  assumes "timers w = (if deferredRedraw c then 1 else 0)"
  shows "timers (snd (commits (take n ss) (c, w))) \<le> 1
    \<and> timers (snd (commits ss (c, w)))
        = (if deferredRedraw (fst (commits ss (c, w))) then 1 else 0)
    \<and> deferredRedraw (fst (commits ss (c, w)))
        = (deferredRedraw c \<or> transitions (state c) ss \<noteq> [])
    \<and> state (fst (commits ss (c, w))) = last (state c # ss)
    \<and> renderCalls (snd (commits ss (c, w))) = renderCalls w
    \<and> emitCalls (snd (commits ss (c, w))) = emitCalls w @ transitions (state c) ss
    \<and> dispatched (snd (commits ss (c, w))) =
        dispatched w @ concat (map (\<lambda>(os, ns). emitted_opt (\<lambda>_. This) (emitRecords c) os ns)
                                   (transitions (state c) ss))
    \<and> (deferredRedraw (fst (commits ss (c, w))) \<longrightarrow>
         (\<exists>cw'. runTask md (commits ss (c, w)) = Some cw'
            \<and> renderCalls (snd cw') = renderCalls w @ [last (state c # ss)]
            \<and> timers (snd cw') = (if deferredRedraw (fst cw') then 1 else 0)))"
proof -
  obtain c' w' where cw: "commits ss (c, w) = (c', w')"
    by (cases "commits ss (c, w)")
  have st: "state c' = last (state c # ss)" and rc: "renderCalls w' = renderCalls w"
    and tm: "timers w' = (if deferredRedraw c' then 1 else 0)"
    using commits_state [of ss c w] commits_renderCalls [of ss c w] commits_timers [of ss c w]
      commits_deferredRedraw [of ss c w] assms
    by (simp_all add: cw)
  have "deferredRedraw c' \<longrightarrow>
         (\<exists>cw'. runTask md (c', w') = Some cw'
            \<and> renderCalls (snd cw') = renderCalls w @ [last (state c # ss)]
            \<and> timers (snd cw') = (if deferredRedraw (fst cw') then 1 else 0))"
    by (simp add: runTask_def tm deferredTask_snd deferredTask_flag redraw_renderCalls
        redraw_timers_pending st rc)
  then have run: "deferredRedraw (fst (commits ss (c, w))) \<longrightarrow>
         (\<exists>cw'. runTask md (commits ss (c, w)) = Some cw'
            \<and> renderCalls (snd cw') = renderCalls w @ [last (state c # ss)]
            \<and> timers (snd cw') = (if deferredRedraw (fst cw') then 1 else 0))"
    by (simp only: cw fst_conv)
  have pre: "timers (snd (commits (take n ss) (c, w))) \<le> 1"
    using assms by (simp add: commits_timers)
  have tm': "timers (snd (commits ss (c, w)))
        = (if deferredRedraw (fst (commits ss (c, w))) then 1 else 0)"
    using tm by (simp add: cw)
  from pre tm' commits_deferredRedraw [of ss c w] commits_state [of ss c w]
    commits_renderCalls [of ss c w] commits_emitCalls [of ss c w]
    commits_dispatched [of ss c w] run
  show ?thesis by blast
qed

theorem commits_coalesce_witness:
  "timers (initial_world :: (int, int) world) = (if deferredRedraw counter then 1 else 0)
   \<and> timers (snd (commits [1, 2, 3] (counter, initial_world))) = 1
   \<and> deferredRedraw (fst (commits [1, 2, 3] (counter, initial_world)))
   \<and> state (fst (commits [1, 2, 3] (counter, initial_world))) = 3
   \<and> emitCalls (snd (commits [1, 2, 3] (counter, initial_world))) = [(0, 1), (1, 2), (2, 3)]
   \<and> dispatched (snd (commits [1, 2, 3] (counter, initial_world)))
       = [(This, (''reachedThree'', 3))]
   \<and> (\<exists>cw'. runTask morph_to (commits [1, 2, 3] (counter, initial_world)) = Some cw'
          \<and> renderCalls (snd cw') = [3]
          \<and> timers (snd cw') = (if deferredRedraw (fst cw') then 1 else 0))"
proof -
  have h: "timers (initial_world :: (int, int) world) = (if deferredRedraw counter then 1 else 0)"
    by (simp add: counter_def Component_core_def initial_world_def)
  have s0: "state counter = 0" "\<not> deferredRedraw counter"
    "emitRecords counter = Some [\<lparr>when_pred = (\<lambda>os ns. 3 \<le> ns),
                        emit = Single (\<lambda>s. (''reachedThree'', s)),
                        channel = None\<rparr>]"
    by (simp_all add: counter_def Component_core_def counter_args_def)
  have r0: "renderCalls (initial_world :: (int, int) world) = []"
       "emitCalls (initial_world :: (int, int) world) = []"
       "dispatched (initial_world :: (int, int) world) = []"
    by (simp_all add: initial_world_def)
  show ?thesis
    using h commits_coalesce [OF h, of 3 "[1, 2, 3]" morph_to]
    by (auto simp: s0 r0 emitted_opt_def emitted_def)
qed

subsection \<open>A commit from inside the redraw\<close>

lemmas run_defs = measuring_args_def Component_core_def Component_index_def connectedCallback_def
  connectedCallback_index_def changeState_def changeState_index_def maybeEmitEvents_def
  maybeEmitEvents_index_def redraw_def redraw_index_def deferredTask_def deferredTask_index_def
  runTask_def runTask_index_def initial_world_def domOp_def appendChild_def setTimeout_def addListeners_def
  morph_to_def label_def Let_def

text \<open>
  C3. The deferred task runs \<^verbatim>\<open>_redraw\<close> first and clears the pending flag afterwards, so
  a commit made by the \<^verbatim>\<open>viewupdated\<close> hook inside the redraw still finds the flag set and
  queues nothing. On the measuring instance, mounted in state 0 and then committed to
  state 1, the task renders state 1, the hook commits state 2 (emission is entered for
  the pair (1, 2)), and afterwards no task is queued and the flag is clear: the mounted
  tree is the one of state 1, not equal to the one of state 2, and the host has nothing
  left to run. This holds for both files. The same hook commit made from
  \<^verbatim>\<open>connectedCallback\<close>, with the instance created in state 1, does queue a redraw.
\<close>

theorem hook_commit_in_redraw_not_scheduled:
  "(let cw1 = changeState 1 (connectedCallback (Component_core (measuring_args 0), initial_world))
    in timers (snd cw1) = 1
       \<and> (\<exists>cw2. runTask morph_to cw1 = Some cw2
            \<and> state (fst cw2) = 2
            \<and> emitCalls (snd cw2) = [(0, 1), (1, 2)]
            \<and> renderCalls (snd cw2) = [0, 1]
            \<and> root (fst cw2) = label 1
            \<and> \<not> isEqualNode (root (fst cw2)) (label 2)
            \<and> timers (snd cw2) = 0
            \<and> \<not> deferredRedraw (fst cw2)
            \<and> runTask morph_to cw2 = None))
   \<and> (let cw1 = changeState_index 1
                  (connectedCallback_index (Component_index (measuring_args 0) None, initial_world))
      in timers (snd cw1) = 1
       \<and> (\<exists>cw2. runTask_index morph_to cw1 = Some cw2
            \<and> state (fst cw2) = 2
            \<and> emitCalls (snd cw2) = [(0, 1), (1, 2)]
            \<and> renderCalls (snd cw2) = [0, 1]
            \<and> root (fst cw2) = label 1
            \<and> \<not> isEqualNode (root (fst cw2)) (label 2)
            \<and> timers (snd cw2) = 0
            \<and> \<not> deferredRedraw (fst cw2)
            \<and> runTask_index morph_to cw2 = None))
   \<and> timers (snd (connectedCallback (Component_core (measuring_args 1), initial_world))) = 1
   \<and> timers (snd (connectedCallback_index (Component_index (measuring_args 1) None, initial_world))) = 1"
  by (simp add: run_defs)

subsection \<open>Event routing\<close>

lemma foldl_update_map_of:
  "map_of (foldl (\<lambda>r k. case f k of None \<Rightarrow> r | Some v \<Rightarrow> AList.update k v r) acc ks) x =
     (if x \<in> set ks \<and> f x \<noteq> None then f x else map_of acc x)"
proof (induction ks arbitrary: acc)
  case Nil
  show ?case by simp
next
  case (Cons k ks)
  show ?case
    by (cases "f k") (auto simp: Cons.IH update_conv)
qed

lemma keys_iff: "x \<in> set (map fst events) \<longleftrightarrow> map_of events x \<noteq> None"
  by (simp add: map_of_eq_None_iff)

lemma localEvents_core_lookup:
  "map_of (localEvents_core events) x = (if x \<in> set GLOBAL_EVENTS then None else map_of events x)"
proof -
  let ?f = "\<lambda>k. if k \<in> set GLOBAL_EVENTS then None else map_of events k"
  have "localEvents_core events =
          foldl (\<lambda>r k. case ?f k of None \<Rightarrow> r | Some v \<Rightarrow> AList.update k v r) [] (map fst events)"
    unfolding localEvents_core_def
    by (rule arg_cong [where f = "\<lambda>g. foldl g [] (map fst events)"]) (intro ext, simp)
  then show ?thesis
    using keys_iff [of x events] by (auto simp: foldl_update_map_of)
qed

lemma globalEvents_core_lookup:
  "map_of (globalEvents_core events) x = (if x \<in> set GLOBAL_EVENTS then map_of events x else None)"
proof -
  let ?f = "\<lambda>k. if \<not> k \<in> set GLOBAL_EVENTS then None else map_of events k"
  have "globalEvents_core events =
          foldl (\<lambda>r k. case ?f k of None \<Rightarrow> r | Some v \<Rightarrow> AList.update k v r) [] (map fst events)"
    unfolding globalEvents_core_def
    by (rule arg_cong [where f = "\<lambda>g. foldl g [] (map fst events)"]) (intro ext, simp)
  then show ?thesis
    using keys_iff [of x events] by (auto simp: foldl_update_map_of)
qed

lemma localEvents_index_lookup:
  "map_of (localEvents_index events) x =
     (case map_of events x of None \<Rightarrow> None | Some r \<Rightarrow> local_of r)"
proof -
  let ?f = "\<lambda>k. case map_of events k of None \<Rightarrow> None | Some r \<Rightarrow> local_of r"
  have "localEvents_index events =
          foldl (\<lambda>r k. case ?f k of None \<Rightarrow> r | Some v \<Rightarrow> AList.update k v r) [] (map fst events)"
    unfolding localEvents_index_def
    by (rule arg_cong [where f = "\<lambda>g. foldl g [] (map fst events)"])
       (intro ext, simp split: option.splits EventRecord.splits)
  then show ?thesis
    using keys_iff [of x events] by (auto simp: foldl_update_map_of split: option.splits)
qed

lemma globalEvents_index_lookup:
  "map_of (globalEvents_index events) x =
     (case map_of events x of None \<Rightarrow> None | Some r \<Rightarrow> global_of r)"
proof -
  let ?f = "\<lambda>k. case map_of events k of None \<Rightarrow> None | Some r \<Rightarrow> global_of r"
  have "globalEvents_index events =
          foldl (\<lambda>r k. case ?f k of None \<Rightarrow> r | Some v \<Rightarrow> AList.update k v r) [] (map fst events)"
    unfolding globalEvents_index_def
    by (rule arg_cong [where f = "\<lambda>g. foldl g [] (map fst events)"])
       (intro ext, simp split: option.splits EventRecord.splits)
  then show ?thesis
    using keys_iff [of x events] by (auto simp: foldl_update_map_of split: option.splits)
qed

text \<open>
  C4, as stated, fails on \<^verbatim>\<open>index.ts\<close>: a bare handler declared under the reserved name
  \<^verbatim>\<open>hashchange\<close> is put in the local table and not in the global one.
\<close>

theorem bare_hashchange_is_local_in_index:
  "''hashchange'' \<in> set GLOBAL_EVENTS
   \<and> map_of (localEvents_index [(''hashchange'', Bare increment)]) ''hashchange'' = Some increment
   \<and> map_of (globalEvents_index [(''hashchange'', Bare increment)]) ''hashchange'' = None"
  by (simp add: GLOBAL_EVENTS_def localEvents_index_def globalEvents_index_def)

text \<open>
  C4, amended. The two tables are disjoint and together hold every declared name. In
  \<^verbatim>\<open>core.ts\<close>, where a handler cannot carry a channel, a handler is global exactly when
  its name is \<^verbatim>\<open>hashchange\<close> or \<^verbatim>\<open>popstate\<close>, and local otherwise. In \<^verbatim>\<open>index.ts\<close> there
  is no reserved name: a bare handler is local whatever its name, and a handler that
  carries a channel is in that channel's table whatever its name.
\<close>

theorem event_channels:
  fixes events :: "('s, 'd) Events" and records :: "('s, 'd) EventRecords"
  shows "set GLOBAL_EVENTS = {''hashchange'', ''popstate''}
    \<and> map_of (localEvents_core events) x
        = (if x \<in> set GLOBAL_EVENTS then None else map_of events x)
    \<and> map_of (globalEvents_core events) x
        = (if x \<in> set GLOBAL_EVENTS then map_of events x else None)
    \<and> map_of (localEvents_index records) x
        = (case map_of records x of None \<Rightarrow> None | Some r \<Rightarrow> local_of r)
    \<and> map_of (globalEvents_index records) x
        = (case map_of records x of None \<Rightarrow> None | Some r \<Rightarrow> global_of r)
    \<and> dom (map_of (localEvents_core events)) \<inter> dom (map_of (globalEvents_core events)) = {}
    \<and> dom (map_of (localEvents_core events)) \<union> dom (map_of (globalEvents_core events))
        = dom (map_of events)
    \<and> dom (map_of (localEvents_index records)) \<inter> dom (map_of (globalEvents_index records)) = {}
    \<and> dom (map_of (localEvents_index records)) \<union> dom (map_of (globalEvents_index records))
        = dom (map_of records)"
proof -
  have d1: "dom (map_of (localEvents_core events)) \<inter> dom (map_of (globalEvents_core events)) = {}"
    by (auto simp: dom_def localEvents_core_lookup globalEvents_core_lookup split: if_splits)
  have d2: "dom (map_of (localEvents_core events)) \<union> dom (map_of (globalEvents_core events))
        = dom (map_of events)"
    by (auto simp: dom_def localEvents_core_lookup globalEvents_core_lookup split: if_splits)
  have l: "local_of r \<noteq> None \<longleftrightarrow> global_of r = None" for r :: "('s, 'd) EventRecord"
  proof (cases r)
    case (Bare h)
    then show ?thesis by simp
  next
    case (Channelled h ch)
    then show ?thesis by (cases ch) simp_all
  qed
  have d3: "dom (map_of (localEvents_index records)) \<inter> dom (map_of (globalEvents_index records)) = {}"
    using l by (auto simp: dom_def localEvents_index_lookup globalEvents_index_lookup
        split: option.splits)
  have d4: "dom (map_of (localEvents_index records)) \<union> dom (map_of (globalEvents_index records))
        = dom (map_of records)"
    using l by (fastforce simp: dom_def localEvents_index_lookup globalEvents_index_lookup
        split: option.splits)
  have g: "set GLOBAL_EVENTS = {''hashchange'', ''popstate''}"
    by (simp add: GLOBAL_EVENTS_def)
  from g d1 d2 d3 d4 show ?thesis
    by (simp only: localEvents_core_lookup globalEvents_core_lookup
        localEvents_index_lookup globalEvents_index_lookup simp_thms)
qed

subsection \<open>Redraw\<close>

lemma isEqualNode_refl: "isEqualNode n n"
  by (induction n) (simp_all add: list_all2_same)

lemma isEqualNode_nodeName: "isEqualNode a b \<Longrightarrow> nodeName a = nodeName b"
  by (cases a; cases b) simp_all

lemma changeState_frame:
  "domOps (snd (changeState s (c, w))) = domOps w"
  "root (fst (changeState s (c, w))) = root c"
  by (cases "state c = s"; simp add: changeState_same changeState_diff)+

lemma changeState_index_frame:
  "domOps (snd (changeState_index s (c, w))) = domOps w"
  "root (fst (changeState_index s (c, w))) = root c"
  "renderCalls (snd (changeState_index s (c, w))) = renderCalls w"
  by (cases "state c = s"; simp add: changeState_index_same changeState_index_diff)+

lemmas mounted_defs = mounted_core_def mounted_index_def replace_options_def nullish_def run_defs

text \<open>
  C5. When the tree rendered from the current state is structurally equal to the mounted
  tree (\<^verbatim>\<open>isEqualNode\<close>: the same names, attributes and children throughout), the redraw
  of either file makes no call that changes the host tree and keeps the mounted root;
  all it does is the call of \<^verbatim>\<open>_render\<close> (and in \<^verbatim>\<open>index.ts\<close>, on an instance that is not
  connected, not even that).
\<close>

theorem redraw_equal_tree_no_mutation:
  fixes c :: "('s, 'd, 'z) Component_scheme" and w :: "('s, 'd) world"
  assumes "isEqualNode (root c) (render c (state c))"
  shows "redraw md (c, w) = (c, w\<lparr>renderCalls := renderCalls w @ [state c]\<rparr>)
    \<and> redraw_index md (c, w)
        = (c, if connected c then w\<lparr>renderCalls := renderCalls w @ [state c]\<rparr> else w)
    \<and> root (fst (redraw md (c, w))) = root c
    \<and> domOps (snd (redraw md (c, w))) = domOps w
    \<and> root (fst (redraw_index md (c, w))) = root c
    \<and> domOps (snd (redraw_index md (c, w))) = domOps w"
  using assms by (simp add: redraw_def redraw_index_def Let_def)

theorem redraw_equal_tree_no_mutation_witness:
  "isEqualNode (root (fst (mounted_core 0)))
     (render (fst (mounted_core 0)) (state (fst (mounted_core 0))))
   \<and> domOps (snd (redraw morph_to (mounted_core 0))) = [AppendChild (label 0)]
   \<and> root (fst (redraw morph_to (mounted_core 0))) = label 0
   \<and> connected (fst (mounted_index None 0))
   \<and> isEqualNode (root (fst (mounted_index None 0)))
       (render (fst (mounted_index None 0)) (state (fst (mounted_index None 0))))
   \<and> domOps (snd (redraw_index morph_to (mounted_index None 0))) = [AppendChild (label 0)]
   \<and> root (fst (redraw_index morph_to (mounted_index None 0))) = label 0"
proof -
  have h1: "isEqualNode (root (fst (mounted_core 0)))
     (render (fst (mounted_core 0)) (state (fst (mounted_core 0))))"
    by (simp add: mounted_defs)
  have h2: "isEqualNode (root (fst (mounted_index None 0)))
       (render (fst (mounted_index None 0)) (state (fst (mounted_index None 0))))"
    by (simp add: mounted_defs)
  have d1: "domOps (snd (mounted_core 0)) = [AppendChild (label 0)]"
       "root (fst (mounted_core 0)) = label 0"
    by (simp_all add: mounted_defs)
  have d2: "domOps (snd (mounted_index None 0)) = [AppendChild (label 0)]"
       "root (fst (mounted_index None 0)) = label 0" "connected (fst (mounted_index None 0))"
    by (simp_all add: mounted_defs)
  show ?thesis
    using h1 h2
      redraw_equal_tree_no_mutation [OF h1, of morph_to "snd (mounted_core 0)"]
      redraw_equal_tree_no_mutation [OF h2, of morph_to "snd (mounted_index None 0)"]
    by (simp add: d1 d2)
qed

text \<open>
  C6, as stated, fails on \<^verbatim>\<open>index.ts\<close>: with the redraw mode \<^verbatim>\<open>"replace"\<close>, a candidate of
  the same kind as the mounted root, and not equal to it, is swapped in as a whole and
  not merged.
\<close>

theorem replace_mode_swaps_same_kind:
  "(let cw = changeState_index 1
               (connectedCallback_index
                  (Component_index (measuring_args 0) (Some replace_options), initial_world))
    in root (fst cw) = label 0
       \<and> render (fst cw) (state (fst cw)) = label 1
       \<and> nodeName (label 0) = nodeName (label 1)
       \<and> \<not> isEqualNode (label 0) (label 1)
       \<and> domOps (snd (redraw_index morph_to cw))
           = [AppendChild (label 0), ReplaceWith (label 0) (label 1)])"
  by (simp add: run_defs replace_options_def nullish_def)

text \<open>
  C6, amended. In \<^verbatim>\<open>core.ts\<close>: when the candidate's root kind differs from the mounted
  root's, the mounted node is replaced by the candidate as a whole (\<^verbatim>\<open>replaceWith\<close>, and
  the candidate becomes the root) and \<^verbatim>\<open>morphdom\<close> is not called; when the kinds match and
  the trees are not equal, the mounted tree is merged in place by \<^verbatim>\<open>morphdom\<close>, called
  with a should-update predicate that is false exactly on structurally equal pairs. In
  \<^verbatim>\<open>index.ts\<close>, on a connected instance: the whole-subtree swap happens when the kinds
  differ and also, whatever the kinds, when the redraw mode is \<^verbatim>\<open>"replace"\<close>; the merge
  in place happens when the kinds match and the redraw mode is \<^verbatim>\<open>"update"\<close>, the
  default.
\<close>

theorem redraw_replace_or_merge:
  fixes c :: "('s, 'd, 'z) Component_scheme" and w :: "('s, 'd) world"
  shows "(nodeName (root c) \<noteq> nodeName (render c (state c)) \<longrightarrow>
            domOps (snd (redraw md (c, w))) = domOps w @ [ReplaceWith (root c) (render c (state c))]
            \<and> root (fst (redraw md (c, w))) = render c (state c))
    \<and> (nodeName (root c) = nodeName (render c (state c))
          \<and> \<not> isEqualNode (root c) (render c (state c)) \<longrightarrow>
            domOps (snd (redraw md (c, w))) = domOps w @ [Morphdom (root c) (render c (state c))]
            \<and> root (fst (redraw md (c, w)))
                = md (root c) (render c (state c)) (\<lambda>fromEl toEl. \<not> isEqualNode fromEl toEl))
    \<and> (connected c \<and> nodeName (root c) \<noteq> nodeName (render c (state c)) \<longrightarrow>
            domOps (snd (redraw_index md (c, w)))
              = domOps w @ [ReplaceWith (root c) (render c (state c))]
            \<and> root (fst (redraw_index md (c, w))) = render c (state c))
    \<and> (connected c \<and> redrawMode c = Replace
          \<and> \<not> isEqualNode (root c) (render c (state c)) \<longrightarrow>
            domOps (snd (redraw_index md (c, w)))
              = domOps w @ [ReplaceWith (root c) (render c (state c))]
            \<and> root (fst (redraw_index md (c, w))) = render c (state c))
    \<and> (connected c \<and> redrawMode c = Update
          \<and> nodeName (root c) = nodeName (render c (state c))
          \<and> \<not> isEqualNode (root c) (render c (state c)) \<longrightarrow>
            domOps (snd (redraw_index md (c, w)))
              = domOps w @ [Morphdom (root c) (render c (state c))]
            \<and> root (fst (redraw_index md (c, w)))
                = md (root c) (render c (state c)) (\<lambda>fromEl toEl. \<not> isEqualNode fromEl toEl))"
proof -
  have ne: "nodeName (root c) \<noteq> nodeName (render c (state c))
              \<Longrightarrow> \<not> isEqualNode (root c) (render c (state c))"
    using isEqualNode_nodeName by blast
  have 1: "nodeName (root c) \<noteq> nodeName (render c (state c)) \<longrightarrow>
            domOps (snd (redraw md (c, w))) = domOps w @ [ReplaceWith (root c) (render c (state c))]
            \<and> root (fst (redraw md (c, w))) = render c (state c)"
    using ne by (simp add: redraw_def Let_def domOp_def changeState_frame split: option.splits)
  have 2: "nodeName (root c) = nodeName (render c (state c))
          \<and> \<not> isEqualNode (root c) (render c (state c)) \<longrightarrow>
            domOps (snd (redraw md (c, w))) = domOps w @ [Morphdom (root c) (render c (state c))]
            \<and> root (fst (redraw md (c, w)))
                = md (root c) (render c (state c)) (\<lambda>fromEl toEl. \<not> isEqualNode fromEl toEl)"
    by (simp add: redraw_def Let_def domOp_def changeState_frame split: option.splits)
  have 3: "connected c \<and> nodeName (root c) \<noteq> nodeName (render c (state c)) \<longrightarrow>
            domOps (snd (redraw_index md (c, w)))
              = domOps w @ [ReplaceWith (root c) (render c (state c))]
            \<and> root (fst (redraw_index md (c, w))) = render c (state c)"
    using ne
    by (simp add: redraw_index_def Let_def domOp_def changeState_index_frame split: option.splits)
  have 4: "connected c \<and> redrawMode c = Replace
          \<and> \<not> isEqualNode (root c) (render c (state c)) \<longrightarrow>
            domOps (snd (redraw_index md (c, w)))
              = domOps w @ [ReplaceWith (root c) (render c (state c))]
            \<and> root (fst (redraw_index md (c, w))) = render c (state c)"
    by (simp add: redraw_index_def Let_def domOp_def changeState_index_frame split: option.splits)
  have 5: "connected c \<and> redrawMode c = Update
          \<and> nodeName (root c) = nodeName (render c (state c))
          \<and> \<not> isEqualNode (root c) (render c (state c)) \<longrightarrow>
            domOps (snd (redraw_index md (c, w)))
              = domOps w @ [Morphdom (root c) (render c (state c))]
            \<and> root (fst (redraw_index md (c, w)))
                = md (root c) (render c (state c)) (\<lambda>fromEl toEl. \<not> isEqualNode fromEl toEl)"
    by (simp add: redraw_index_def Let_def domOp_def changeState_index_frame split: option.splits)
  from 1 2 3 4 5 show ?thesis by blast
qed

theorem redraw_replace_or_merge_witness:
  "nodeName (root (fst (mounted_core 2)))
     \<noteq> nodeName (render (fst (mounted_core 2)) (state (fst (mounted_core 2))))
   \<and> domOps (snd (redraw morph_to (mounted_core 2)))
       = [AppendChild (label 0), ReplaceWith (label 0) (label 2)]
   \<and> root (fst (redraw morph_to (mounted_core 2))) = label 2
   \<and> nodeName (root (fst (mounted_core 1)))
       = nodeName (render (fst (mounted_core 1)) (state (fst (mounted_core 1))))
   \<and> \<not> isEqualNode (root (fst (mounted_core 1)))
         (render (fst (mounted_core 1)) (state (fst (mounted_core 1))))
   \<and> domOps (snd (redraw morph_to (mounted_core 1)))
       = [AppendChild (label 0), Morphdom (label 0) (label 1)]
   \<and> connected (fst (mounted_index None 2))
   \<and> domOps (snd (redraw_index morph_to (mounted_index None 2)))
       = [AppendChild (label 0), ReplaceWith (label 0) (label 2)]
   \<and> redrawMode (fst (mounted_index (Some replace_options) 1)) = Replace
   \<and> domOps (snd (redraw_index morph_to (mounted_index (Some replace_options) 1)))
       = [AppendChild (label 0), ReplaceWith (label 0) (label 1)]
   \<and> redrawMode (fst (mounted_index None 1)) = Update
   \<and> domOps (snd (redraw_index morph_to (mounted_index None 1)))
       = [AppendChild (label 0), Morphdom (label 0) (label 1)]
   \<and> root (fst (redraw_index morph_to (mounted_index None 1))) = label 1"
proof -
  have a: "nodeName (root (fst (mounted_core 2)))
     \<noteq> nodeName (render (fst (mounted_core 2)) (state (fst (mounted_core 2))))"
    "root (fst (mounted_core 2)) = label 0"
    "render (fst (mounted_core 2)) (state (fst (mounted_core 2))) = label 2"
    "domOps (snd (mounted_core 2)) = [AppendChild (label 0)]"
    by (simp_all add: mounted_defs)
  have b: "nodeName (root (fst (mounted_core 1)))
       = nodeName (render (fst (mounted_core 1)) (state (fst (mounted_core 1))))"
    "\<not> isEqualNode (root (fst (mounted_core 1)))
         (render (fst (mounted_core 1)) (state (fst (mounted_core 1))))"
    "root (fst (mounted_core 1)) = label 0"
    "render (fst (mounted_core 1)) (state (fst (mounted_core 1))) = label 1"
    "domOps (snd (mounted_core 1)) = [AppendChild (label 0)]"
    by (simp_all add: mounted_defs)
  have c: "connected (fst (mounted_index None 2))"
    "nodeName (root (fst (mounted_index None 2)))
       \<noteq> nodeName (render (fst (mounted_index None 2)) (state (fst (mounted_index None 2))))"
    "root (fst (mounted_index None 2)) = label 0"
    "render (fst (mounted_index None 2)) (state (fst (mounted_index None 2))) = label 2"
    "domOps (snd (mounted_index None 2)) = [AppendChild (label 0)]"
    by (simp_all add: mounted_defs)
  have d: "connected (fst (mounted_index (Some replace_options) 1))"
    "redrawMode (fst (mounted_index (Some replace_options) 1)) = Replace"
    "\<not> isEqualNode (root (fst (mounted_index (Some replace_options) 1)))
         (render (fst (mounted_index (Some replace_options) 1))
                 (state (fst (mounted_index (Some replace_options) 1))))"
    "root (fst (mounted_index (Some replace_options) 1)) = label 0"
    "render (fst (mounted_index (Some replace_options) 1))
            (state (fst (mounted_index (Some replace_options) 1))) = label 1"
    "domOps (snd (mounted_index (Some replace_options) 1)) = [AppendChild (label 0)]"
    by (simp_all add: mounted_defs)
  have e: "connected (fst (mounted_index None 1))"
    "redrawMode (fst (mounted_index None 1)) = Update"
    "nodeName (root (fst (mounted_index None 1)))
       = nodeName (render (fst (mounted_index None 1)) (state (fst (mounted_index None 1))))"
    "\<not> isEqualNode (root (fst (mounted_index None 1)))
         (render (fst (mounted_index None 1)) (state (fst (mounted_index None 1))))"
    "root (fst (mounted_index None 1)) = label 0"
    "render (fst (mounted_index None 1)) (state (fst (mounted_index None 1))) = label 1"
    "domOps (snd (mounted_index None 1)) = [AppendChild (label 0)]"
    by (simp_all add: mounted_defs)
  show ?thesis
    using redraw_replace_or_merge [of "fst (mounted_core 2)" morph_to "snd (mounted_core 2)"]
      redraw_replace_or_merge [of "fst (mounted_core 1)" morph_to "snd (mounted_core 1)"]
      redraw_replace_or_merge [of "fst (mounted_index None 2)" morph_to "snd (mounted_index None 2)"]
      redraw_replace_or_merge [of "fst (mounted_index (Some replace_options) 1)" morph_to
        "snd (mounted_index (Some replace_options) 1)"]
      redraw_replace_or_merge [of "fst (mounted_index None 1)" morph_to "snd (mounted_index None 1)"]
    by (simp add: a b c d e morph_to_def label_def)
qed

subsection \<open>Emission\<close>

lemmas counter_defs = counter_def counter_index_def counter_args_def increment_event_def
  eventHandler_def localEventHandler_index_def eventCall_def window_def dispatchEvent_def
  localEvents_core_def localEvents_index_def globalEvents_core_def globalEvents_index_def
  GLOBAL_EVENTS_def increment_def run_defs

text \<open>
  C7. A commit that changes the state dispatches exactly the events of the emission
  pass for the pair (old state, new state), after what was dispatched before; a commit
  of the current state dispatches nothing. The events of a pass are those of the records,
  taken in declaration order, whose predicate holds for the pair: for each such record
  its emitter, or each emitter of its list in list order, applied to the new state;
  a record whose predicate is false contributes nothing, and an instance without
  records dispatches nothing. In \<^verbatim>\<open>index.ts\<close> the target is the window for a record of
  the global channel and the instance otherwise; in \<^verbatim>\<open>core.ts\<close> it is the instance.
  End to end, in both files: the counter starts at 0 and listens for \<^verbatim>\<open>increment\<close>;
  three such events commit the states 1, 2, 3, nothing is dispatched by the first two,
  and the third dispatches \<^verbatim>\<open>reachedThree\<close> once, carrying 3.
\<close>

theorem emission_in_declaration_order:
  fixes c :: "('s, 'd, 'z) Component_scheme" and w :: "('s, 'd) world"
  shows "dispatched (snd (changeState s (c, w)))
      = dispatched w @ (if state c = s then []
                        else emitted_opt (\<lambda>_. This) (emitRecords c) (state c) s)
    \<and> dispatched (snd (changeState_index s (c, w)))
      = dispatched w @ (if state c = s then []
                        else emitted_opt target_index (emitRecords c) (state c) s)
    \<and> emitted_opt tgt (Some records) os ns
      = concat (map (\<lambda>r. map (\<lambda>e. (tgt r, e ns)) (emitter_list (emit r)))
                    (filter (\<lambda>r. when_pred r os ns) records))
    \<and> emitted_opt tgt None os ns = []
    \<and> (\<exists>cw1 cw2 cw3.
          ''increment'' \<in> set (shadowListeners (snd (connectedCallback (counter, initial_world))))
        \<and> eventHandler (localEvents counter) increment_event
             (connectedCallback (counter, initial_world)) = Inr cw1
        \<and> eventHandler (localEvents counter) increment_event cw1 = Inr cw2
        \<and> eventHandler (localEvents counter) increment_event cw2 = Inr cw3
        \<and> state (fst cw1) = 1 \<and> dispatched (snd cw1) = []
        \<and> state (fst cw2) = 2 \<and> dispatched (snd cw2) = []
        \<and> state (fst cw3) = 3 \<and> dispatched (snd cw3) = [(This, (''reachedThree'', 3))]
        \<and> emitCalls (snd cw3) = [(0, 1), (1, 2), (2, 3)])
    \<and> (\<exists>cw1 cw2 cw3.
          ''increment'' \<in> set (shadowListeners
                                 (snd (connectedCallback_index (counter_index, initial_world))))
        \<and> localEventHandler_index increment_event
             (connectedCallback_index (counter_index, initial_world)) = Inr cw1
        \<and> localEventHandler_index increment_event cw1 = Inr cw2
        \<and> localEventHandler_index increment_event cw2 = Inr cw3
        \<and> state (fst cw1) = 1 \<and> dispatched (snd cw1) = []
        \<and> state (fst cw2) = 2 \<and> dispatched (snd cw2) = []
        \<and> state (fst cw3) = 3 \<and> dispatched (snd cw3) = [(This, (''reachedThree'', 3))]
        \<and> emitCalls (snd cw3) = [(0, 1), (1, 2), (2, 3)])"
proof -
  have g: "dispatched (snd (changeState s (c, w)))
      = dispatched w @ (if state c = s then []
                        else emitted_opt (\<lambda>_. This) (emitRecords c) (state c) s)"
    by (cases "state c = s") (simp_all add: changeState_same changeState_diff)
  have gi: "dispatched (snd (changeState_index s (c, w)))
      = dispatched w @ (if state c = s then []
                        else emitted_opt target_index (emitRecords c) (state c) s)"
    by (cases "state c = s") (simp_all add: changeState_index_same changeState_index_diff)
  have e: "emitted_opt tgt (Some records) os ns
      = concat (map (\<lambda>r. map (\<lambda>e. (tgt r, e ns)) (emitter_list (emit r)))
                    (filter (\<lambda>r. when_pred r os ns) records))"
    "emitted_opt tgt None os ns = []"
    by (simp_all add: emitted_opt_def emitted_def)
  have sc: "\<exists>cw1 cw2 cw3.
          ''increment'' \<in> set (shadowListeners (snd (connectedCallback (counter, initial_world))))
        \<and> eventHandler (localEvents counter) increment_event
             (connectedCallback (counter, initial_world)) = Inr cw1
        \<and> eventHandler (localEvents counter) increment_event cw1 = Inr cw2
        \<and> eventHandler (localEvents counter) increment_event cw2 = Inr cw3
        \<and> state (fst cw1) = 1 \<and> dispatched (snd cw1) = []
        \<and> state (fst cw2) = 2 \<and> dispatched (snd cw2) = []
        \<and> state (fst cw3) = 3 \<and> dispatched (snd cw3) = [(This, (''reachedThree'', 3))]
        \<and> emitCalls (snd cw3) = [(0, 1), (1, 2), (2, 3)]"
    by (simp add: counter_defs)
  have sci: "\<exists>cw1 cw2 cw3.
          ''increment'' \<in> set (shadowListeners
                                 (snd (connectedCallback_index (counter_index, initial_world))))
        \<and> localEventHandler_index increment_event
             (connectedCallback_index (counter_index, initial_world)) = Inr cw1
        \<and> localEventHandler_index increment_event cw1 = Inr cw2
        \<and> localEventHandler_index increment_event cw2 = Inr cw3
        \<and> state (fst cw1) = 1 \<and> dispatched (snd cw1) = []
        \<and> state (fst cw2) = 2 \<and> dispatched (snd cw2) = []
        \<and> state (fst cw3) = 3 \<and> dispatched (snd cw3) = [(This, (''reachedThree'', 3))]
        \<and> emitCalls (snd cw3) = [(0, 1), (1, 2), (2, 3)]"
    by (simp add: counter_defs)
  from g gi e sc sci show ?thesis by blast
qed

subsection \<open>Form synchronisation\<close>

lemma validityDiffers_iff:
  "validityDiffers v flags \<longleftrightarrow> (\<exists>k. v k \<noteq> nullish (flags k) False)"
proof
  assume "validityDiffers v flags"
  then show "\<exists>k. v k \<noteq> nullish (flags k) False"
    unfolding validityDiffers_def by blast
next
  assume "\<exists>k. v k \<noteq> nullish (flags k) False"
  then obtain k where "v k \<noteq> nullish (flags k) False" ..
  then show "validityDiffers v flags"
    unfolding validityDiffers_def by (cases k) simp_all
qed

lemma not_validityDiffers_eq:
  "\<not> validityDiffers v flags \<Longrightarrow> v = (\<lambda>k. nullish (flags k) False)"
  by (auto simp: validityDiffers_iff)

lemma changeState_form_frame:
  "validate (fst (changeState s (c, w))) = validate c"
  "formValue (fst (changeState s (c, w))) = formValue c"
  "root (fst (changeState s (c, w))) = root c"
  "state (fst (changeState s (c, w))) = s"
  "validity (snd (changeState s (c, w))) = validity w"
  "validityPushes (snd (changeState s (c, w))) = validityPushes w"
  "formValues (snd (changeState s (c, w))) = formValues w"
  "attached (snd (changeState s (c, w))) = attached w"
  by (cases "state c = s"; simp add: changeState_same changeState_diff)+

lemma changeState_index_form_frame:
  "validate (fst (changeState_index s (c, w))) = validate c"
  "formValue (fst (changeState_index s (c, w))) = formValue c"
  "connected (fst (changeState_index s (c, w))) = connected c"
  "state (fst (changeState_index s (c, w))) = s"
  "validity (snd (changeState_index s (c, w))) = validity w"
  "validityPushes (snd (changeState_index s (c, w))) = validityPushes w"
  "formValues (snd (changeState_index s (c, w))) = formValues w"
  "attached (snd (changeState_index s (c, w))) = attached w"
  by (cases "state c = s"; simp add: changeState_index_same changeState_index_diff)+

lemma refusal_frame:
  "refusal flags message (w\<lparr>formValues := x\<rparr>) = refusal flags message w"
  by (simp add: refusal_def)

lemma maybeValidate_pushes:
  "validityPushes (fst (maybeValidate (c, w))) = validityPushes w @
     (case validate c of
        None \<Rightarrow> []
      | Some vf \<Rightarrow> if validityDiffers (validity w) (fst (vf (state c)))
                    then [(fst (vf (state c)), snd (vf (state c)), root c)] else [])"
  by (simp add: maybeValidate_def setValidity_def Let_def split: option.splits prod.splits)

lemma maybeValidate_index_pushes:
  "validityPushes (fst (maybeValidate_index (c, w))) = validityPushes w @
     (case validate c of
        None \<Rightarrow> []
      | Some vf \<Rightarrow> if connected c \<and> validityDiffers (validity w) (fst (vf (state c)))
                    then [(fst (vf (state c)), snd (vf (state c)), root c)] else [])"
  by (simp add: maybeValidate_index_def setValidity_def Let_def split: option.splits prod.splits)

lemma maybeValidate_raised:
  "snd (maybeValidate (c, w)) =
     (case validate c of
        None \<Rightarrow> None
      | Some vf \<Rightarrow> if validityDiffers (validity w) (fst (vf (state c)))
                    then refusal (fst (vf (state c))) (snd (vf (state c))) w else None)"
  by (simp add: maybeValidate_def setValidity_def Let_def split: option.splits prod.splits)

lemma maybeValidate_validity:
  "validity (fst (maybeValidate (c, w))) =
     (case validate c of
        None \<Rightarrow> validity w
      | Some vf \<Rightarrow> if validityDiffers (validity w) (fst (vf (state c)))
                       \<and> refusal (fst (vf (state c))) (snd (vf (state c))) w = None
                    then (\<lambda>k. nullish (fst (vf (state c)) k) False) else validity w)"
  by (simp add: maybeValidate_def setValidity_def Let_def split: option.splits prod.splits)

lemma FormComponent_changeState_eq:
  "FormComponent_changeState s (c, w) =
     ((fst (changeState s (c, w)),
       fst (maybeValidate (fst (changeState s (c, w)),
                           setFormValue (formValue c s) (snd (changeState s (c, w)))))),
      snd (maybeValidate (fst (changeState s (c, w)),
                          setFormValue (formValue c s) (snd (changeState s (c, w))))))"
proof -
  obtain c' w' where cw: "changeState s (c, w) = (c', w')"
    by (cases "changeState s (c, w)")
  have "formValue c' = formValue c" "state c' = s"
    using changeState_form_frame(2,4) [of s c w] by (simp_all add: cw)
  then show ?thesis
    by (simp add: FormComponent_changeState_def cw split: prod.splits)
qed

lemma FormComponent_changeState_index_eq:
  "FormComponent_changeState_index s (c, w) =
     ((fst (changeState_index s (c, w)),
       fst (maybeValidate_index (fst (changeState_index s (c, w)),
                                 setFormValue (formValue c s) (snd (changeState_index s (c, w)))))),
      snd (maybeValidate_index (fst (changeState_index s (c, w)),
                                setFormValue (formValue c s) (snd (changeState_index s (c, w))))))"
proof -
  obtain c' w' where cw: "changeState_index s (c, w) = (c', w')"
    by (cases "changeState_index s (c, w)")
  have "formValue c' = formValue c" "state c' = s"
    using changeState_index_form_frame(2,4) [of s c w] by (simp_all add: cw)
  then show ?thesis
    by (simp add: FormComponent_changeState_index_def cw split: prod.splits)
qed

lemmas form_commit_simps = FormComponent_changeState_eq changeState_form_frame setFormValue_def
  refusal_frame

lemma form_commit_pushes:
  "validityPushes (snd (fst (FormComponent_changeState s (c, w)))) = validityPushes w @
     (case validate c of
        None \<Rightarrow> []
      | Some vf \<Rightarrow> if validityDiffers (validity w) (fst (vf s))
                    then [(fst (vf s), snd (vf s), root c)] else [])"
  by (simp add: form_commit_simps maybeValidate_pushes split: option.splits)

lemma form_commit_raised:
  "snd (FormComponent_changeState s (c, w)) =
     (case validate c of
        None \<Rightarrow> None
      | Some vf \<Rightarrow> if validityDiffers (validity w) (fst (vf s))
                    then refusal (fst (vf s)) (snd (vf s)) w else None)"
  by (simp add: form_commit_simps maybeValidate_raised refusal_def split: option.splits)

lemma form_commit_validity:
  "validity (snd (fst (FormComponent_changeState s (c, w)))) =
     (case validate c of
        None \<Rightarrow> validity w
      | Some vf \<Rightarrow> if validityDiffers (validity w) (fst (vf s))
                       \<and> refusal (fst (vf s)) (snd (vf s)) w = None
                    then (\<lambda>k. nullish (fst (vf s) k) False) else validity w)"
  by (simp add: form_commit_simps maybeValidate_validity refusal_def split: option.splits)

lemma form_commit_validate:
  "validate (fst (fst (FormComponent_changeState s (c, w)))) = validate c"
  by (simp add: form_commit_simps)

lemma form_commit_index_pushes:
  "validityPushes (snd (fst (FormComponent_changeState_index s (c, w)))) = validityPushes w @
     (case validate c of
        None \<Rightarrow> []
      | Some vf \<Rightarrow> if connected c \<and> validityDiffers (validity w) (fst (vf s))
                    then [(fst (vf s), snd (vf s), root c)] else [])"
proof -
  have r: "root (fst (changeState_index s (c, w))) = root c"
    by (rule changeState_index_frame)
  show ?thesis
    by (simp add: FormComponent_changeState_index_eq maybeValidate_index_pushes
        changeState_index_form_frame r setFormValue_def split: option.splits)
qed

text \<open>Two transitions with the same flags: when the first is not refused, the second finds
  nothing to push.\<close>

lemma second_transition_silent:
  assumes v: "validate c = Some vf" and same: "fst (vf s2) = fst (vf s1)"
    and ok: "snd (FormComponent_changeState s1 (c, w)) = None"
  shows "validityPushes (snd (fst (FormComponent_changeState s2
                                      (fst (FormComponent_changeState s1 (c, w))))))
           = validityPushes (snd (fst (FormComponent_changeState s1 (c, w))))"
proof -
  obtain c1 w1 where cw1: "fst (FormComponent_changeState s1 (c, w)) = (c1, w1)"
    by (cases "fst (FormComponent_changeState s1 (c, w))")
  have v1: "validate c1 = Some vf"
    using form_commit_validate [of s1 c w] v by (simp add: cw1)
  have "validity w1 = (\<lambda>k. nullish (fst (vf s1) k) False)"
  proof (cases "validityDiffers (validity w) (fst (vf s1))")
    case True
    then have "refusal (fst (vf s1)) (snd (vf s1)) w = None"
      using ok by (simp add: form_commit_raised v)
    then show ?thesis
      using form_commit_validity [of s1 c w] True by (simp add: cw1 v)
  next
    case False
    then show ?thesis
      using form_commit_validity [of s1 c w] not_validityDiffers_eq [OF False]
      by (simp add: cw1 v)
  qed
  then have "\<not> validityDiffers (validity w1) (fst (vf s2))"
    by (simp add: same validityDiffers_iff)
  then show ?thesis
    using form_commit_pushes [of s2 c1 w1] by (simp add: cw1 v1)
qed


lemma form_commit_index_formValues:
  "formValues (snd (fst (FormComponent_changeState_index s (c, w)))) = formValues w @ [formValue c s]"
  by (simp add: FormComponent_changeState_index_eq maybeValidate_index_frame
      changeState_index_form_frame setFormValue_def)

lemma form_commit_formValues:
  "formValues (snd (fst (FormComponent_changeState s (c, w)))) = formValues w @ [formValue c s]"
  by (simp add: FormComponent_changeState_eq maybeValidate_frame changeState_form_frame
      setFormValue_def)

lemmas required_defs = mounted_required_def mounted_required_index_def required_field_def
  required_field_index_def FormComponent_core_def FormComponent_index_def required_args_def
  required_formValue_def Component.extend_def FormComponent.fields_def setFormValue_def
  nullish_def run_defs

lemma mounted_required_facts:
  "state (fst mounted_required) = 0"
  "validate (fst mounted_required) = Some required_validate"
  "formValue (fst mounted_required) = required_formValue"
  "root (fst mounted_required) = label 0"
  "validityPushes (snd mounted_required) = []"
  "validity (snd mounted_required) = (\<lambda>_. False)"
  "formValues (snd mounted_required) = [''zero'']"
  "attached (snd mounted_required)"
  by (simp_all add: required_defs)

lemma mounted_required_index_facts:
  "state (fst mounted_required_index) = 0"
  "validate (fst mounted_required_index) = Some required_validate"
  "formValue (fst mounted_required_index) = required_formValue"
  "root (fst mounted_required_index) = label 0"
  "connected (fst mounted_required_index)"
  "validityPushes (snd mounted_required_index) = []"
  "validity (snd mounted_required_index) = (\<lambda>_. False)"
  "formValues (snd mounted_required_index) = [''zero'']"
  "attached (snd mounted_required_index)"
  by (simp_all add: required_defs)

lemma required_field_facts:
  "state (fst required_field) = 0"
  "validate (fst required_field) = Some required_validate"
  "root (fst required_field) = Element ''SPAN'' [] []"
  "validityPushes (snd required_field) = []"
  "validity (snd required_field) = (\<lambda>_. False)"
  "\<not> attached (snd required_field)"
  by (simp_all add: required_defs)

lemma required_differs:
  "validityDiffers (\<lambda>_. False) (fst (required_validate s))"
  "refusal (fst (required_validate s)) (snd (required_validate s)) w
     = (if attached w then None else Some NotFoundError)"
  by (simp_all add: required_validate_def validityDiffers_def nullish_def refusal_def)


text \<open>
  Before the instance is mounted, \<^verbatim>\<open>core.ts\<close> validates all the same. The anchor is then
  the span of the constructor, outside the tree: the host refuses the push, the validity
  state stays as it was, and the next transition pushes again.
\<close>

lemma form_commit_attached:
  "attached (snd (fst (FormComponent_changeState s (c, w)))) = attached w"
  by (simp add: form_commit_simps maybeValidate_def setValidity_def Let_def
      split: option.splits prod.splits)

lemma unmounted_push_refused:
  "snd (FormComponent_changeState 1 required_field) = Some NotFoundError
   \<and> validity (snd (fst (FormComponent_changeState 1 required_field))) = (\<lambda>_. False)
   \<and> snd (FormComponent_changeState 2 (fst (FormComponent_changeState 1 required_field)))
       = Some NotFoundError
   \<and> length (validityPushes
        (snd (fst (FormComponent_changeState 2
                     (fst (FormComponent_changeState 1 required_field)))))) = 2"
proof -
  obtain c0 w0 where rf: "required_field = (c0, w0)"
    by (cases required_field)
  have f0: "validate c0 = Some required_validate" "validityPushes w0 = []"
    "validity w0 = (\<lambda>_. False)" "\<not> attached w0"
    using required_field_facts by (simp_all add: rf)
  obtain c1 w1 where cw1: "fst (FormComponent_changeState 1 (c0, w0)) = (c1, w1)"
    by (cases "fst (FormComponent_changeState 1 (c0, w0))")
  have r1: "snd (FormComponent_changeState 1 (c0, w0)) = Some NotFoundError"
    by (simp add: form_commit_raised f0 required_differs)
  have f1: "validate c1 = Some required_validate" "validity w1 = (\<lambda>_. False)"
    "length (validityPushes w1) = 1" "\<not> attached w1"
    using form_commit_validate [of 1 c0 w0] form_commit_validity [of 1 c0 w0]
      form_commit_pushes [of 1 c0 w0] form_commit_attached [of 1 c0 w0]
    by (simp_all add: cw1 f0 required_differs)
  have r2: "snd (FormComponent_changeState 2 (c1, w1)) = Some NotFoundError"
    by (simp add: form_commit_raised f1 required_differs)
  have p2: "length (validityPushes (snd (fst (FormComponent_changeState 2 (c1, w1))))) = 2"
    by (simp add: form_commit_pushes f1 required_differs)
  show ?thesis
    using r1 r2 p2 f1(2) by (simp add: rf cw1)
qed

text \<open>
  C8. \<^verbatim>\<open>_validityDiffers\<close> holds exactly when one of the ten flags of the host's validity
  state differs from the flag that \<^verbatim>\<open>validate\<close> returned, a flag that is missing (or not
  \<^verbatim>\<open>true\<close>) counting as false. After a commit of \<^verbatim>\<open>core.ts\<close> on an instance that has a
  \<^verbatim>\<open>validate\<close> function, \<^verbatim>\<open>setValidity\<close> is called with the flags, the message and the
  root, once, exactly when some flag differs, and is not called otherwise or without a
  \<^verbatim>\<open>validate\<close> function (\<^verbatim>\<open>index.ts\<close> calls it under the same condition while the
  instance is connected). The commit raises what the host raises, if it refuses the
  call; the validity state afterwards is the flags returned, unless the host refused
  them. So when \<^verbatim>\<open>validate\<close> returns the same flags on two successive transitions and
  the first one raised nothing, the second one pushes nothing. On the mounted required
  field, whose \<^verbatim>\<open>validate\<close> returns \<^verbatim>\<open>{ valueMissing: true }\<close> and a message at every
  state, the first transition pushes once, with the mounted root as the anchor, and is
  accepted, and the second pushes nothing.
\<close>

theorem validity_pushed_when_a_flag_differs:
  fixes c :: "('s, 'd, 'z) FormComponent_scheme" and w :: "('s, 'd) world"
  shows "validityDiffers v flags = (\<exists>k. v k \<noteq> nullish (flags k) False)
    \<and> nullish (flags k) False = (flags k = Some True)
    \<and> validityPushes (snd (fst (FormComponent_changeState s (c, w)))) = validityPushes w @
        (case validate c of
           None \<Rightarrow> []
         | Some vf \<Rightarrow> if \<exists>k. validity w k \<noteq> nullish (fst (vf s) k) False
                       then [(fst (vf s), snd (vf s), root c)] else [])
    \<and> validityPushes (snd (fst (FormComponent_changeState_index s (c, w)))) = validityPushes w @
        (case validate c of
           None \<Rightarrow> []
         | Some vf \<Rightarrow> if connected c \<and> (\<exists>k. validity w k \<noteq> nullish (fst (vf s) k) False)
                       then [(fst (vf s), snd (vf s), root c)] else [])
    \<and> snd (FormComponent_changeState s (c, w)) =
        (case validate c of
           None \<Rightarrow> None
         | Some vf \<Rightarrow> if \<exists>k. validity w k \<noteq> nullish (fst (vf s) k) False
                       then refusal (fst (vf s)) (snd (vf s)) w else None)
    \<and> validity (snd (fst (FormComponent_changeState s (c, w)))) =
        (case validate c of
           None \<Rightarrow> validity w
         | Some vf \<Rightarrow> if (\<exists>k. validity w k \<noteq> nullish (fst (vf s) k) False)
                          \<and> refusal (fst (vf s)) (snd (vf s)) w \<noteq> None
                       then validity w else (\<lambda>k. nullish (fst (vf s) k) False))
    \<and> (validate c = Some vf \<and> fst (vf s2) = fst (vf s1)
          \<and> snd (FormComponent_changeState s1 (c, w)) = None \<longrightarrow>
        validityPushes (snd (fst (FormComponent_changeState s2
                                    (fst (FormComponent_changeState s1 (c, w))))))
          = validityPushes (snd (fst (FormComponent_changeState s1 (c, w)))))
    \<and> attached (snd mounted_required)
    \<and> validityPushes (snd mounted_required) = []
    \<and> snd (FormComponent_changeState 1 mounted_required) = None
    \<and> map (\<lambda>(flags, message, anchor). (flags valueMissing, message, anchor))
          (validityPushes (snd (fst (FormComponent_changeState 1 mounted_required))))
        = [(Some True, ''required'', label 0)]
    \<and> snd (FormComponent_changeState 2 (fst (FormComponent_changeState 1 mounted_required)))
        = None
    \<and> validityPushes (snd (fst (FormComponent_changeState 2
                                   (fst (FormComponent_changeState 1 mounted_required)))))
        = validityPushes (snd (fst (FormComponent_changeState 1 mounted_required)))"
proof -
  have n: "nullish (flags k) False = (flags k = Some True)"
    by (cases "flags k") (simp_all add: nullish_def)
  have a: "validityPushes (snd (fst (FormComponent_changeState s (c, w)))) = validityPushes w @
        (case validate c of
           None \<Rightarrow> []
         | Some vf \<Rightarrow> if \<exists>k. validity w k \<noteq> nullish (fst (vf s) k) False
                       then [(fst (vf s), snd (vf s), root c)] else [])"
    by (simp add: form_commit_pushes validityDiffers_iff split: option.splits)
  have ai: "validityPushes (snd (fst (FormComponent_changeState_index s (c, w))))
      = validityPushes w @
        (case validate c of
           None \<Rightarrow> []
         | Some vf \<Rightarrow> if connected c \<and> (\<exists>k. validity w k \<noteq> nullish (fst (vf s) k) False)
                       then [(fst (vf s), snd (vf s), root c)] else [])"
    by (simp add: form_commit_index_pushes validityDiffers_iff split: option.splits)
  have r: "snd (FormComponent_changeState s (c, w)) =
        (case validate c of
           None \<Rightarrow> None
         | Some vf \<Rightarrow> if \<exists>k. validity w k \<noteq> nullish (fst (vf s) k) False
                       then refusal (fst (vf s)) (snd (vf s)) w else None)"
    by (simp add: form_commit_raised validityDiffers_iff split: option.splits)
  have vl: "validity (snd (fst (FormComponent_changeState s (c, w)))) =
        (case validate c of
           None \<Rightarrow> validity w
         | Some vf \<Rightarrow> if (\<exists>k. validity w k \<noteq> nullish (fst (vf s) k) False)
                          \<and> refusal (fst (vf s)) (snd (vf s)) w \<noteq> None
                       then validity w else (\<lambda>k. nullish (fst (vf s) k) False))"
  proof (cases "validate c")
    case None
    then show ?thesis by (simp add: form_commit_validity)
  next
    case (Some vf)
    show ?thesis
    proof (cases "validityDiffers (validity w) (fst (vf s))")
      case True
      then show ?thesis
        using validityDiffers_iff [of "validity w" "fst (vf s)"]
        by (auto simp: form_commit_validity Some)
    next
      case False
      then show ?thesis
        using validityDiffers_iff [of "validity w" "fst (vf s)"]
          not_validityDiffers_eq [OF False]
        by (auto simp: form_commit_validity Some)
    qed
  qed
  have two: "validate c = Some vf \<and> fst (vf s2) = fst (vf s1)
          \<and> snd (FormComponent_changeState s1 (c, w)) = None \<longrightarrow>
        validityPushes (snd (fst (FormComponent_changeState s2
                                    (fst (FormComponent_changeState s1 (c, w))))))
          = validityPushes (snd (fst (FormComponent_changeState s1 (c, w))))"
    using second_transition_silent [of c vf s2 s1 w] by blast
  obtain c0 w0 where m: "mounted_required = (c0, w0)"
    by (cases mounted_required)
  have f0: "validate c0 = Some required_validate" "validityPushes w0 = []"
    "validity w0 = (\<lambda>_. False)" "attached w0" "root c0 = label 0"
    using mounted_required_facts by (simp_all add: m)
  have r1: "snd (FormComponent_changeState 1 (c0, w0)) = None"
    by (simp add: form_commit_raised f0 required_differs)
  have p1: "map (\<lambda>(flags, message, anchor). (flags valueMissing, message, anchor))
          (validityPushes (snd (fst (FormComponent_changeState 1 (c0, w0)))))
        = [(Some True, ''required'', label 0)]"
    by (simp add: form_commit_pushes f0 required_differs) (simp add: required_validate_def)
  have same: "fst (required_validate 2) = fst (required_validate 1)"
    by (simp add: required_validate_def)
  have p2: "validityPushes (snd (fst (FormComponent_changeState 2
                                   (fst (FormComponent_changeState 1 (c0, w0))))))
        = validityPushes (snd (fst (FormComponent_changeState 1 (c0, w0))))"
    using second_transition_silent [OF f0(1) same r1] .
  obtain c1 w1 where cw1: "fst (FormComponent_changeState 1 (c0, w0)) = (c1, w1)"
    by (cases "fst (FormComponent_changeState 1 (c0, w0))")
  have f1: "validate c1 = Some required_validate"
    "validity w1 = (\<lambda>k. nullish (fst (required_validate 1) k) False)"
    using form_commit_validate [of 1 c0 w0] form_commit_validity [of 1 c0 w0]
    by (simp_all add: cw1 f0 required_differs)
  have "\<not> validityDiffers (validity w1) (fst (required_validate 2))"
    by (simp add: f1 same validityDiffers_iff)
  then have r2: "snd (FormComponent_changeState 2 (fst (FormComponent_changeState 1 (c0, w0))))
        = None"
    by (simp add: cw1 form_commit_raised f1)
  have sc: "attached (snd mounted_required)"
    "validityPushes (snd mounted_required) = []"
    "snd (FormComponent_changeState 1 mounted_required) = None"
    "map (\<lambda>(flags, message, anchor). (flags valueMissing, message, anchor))
          (validityPushes (snd (fst (FormComponent_changeState 1 mounted_required))))
        = [(Some True, ''required'', label 0)]"
    "snd (FormComponent_changeState 2 (fst (FormComponent_changeState 1 mounted_required)))
        = None"
    "validityPushes (snd (fst (FormComponent_changeState 2
                                   (fst (FormComponent_changeState 1 mounted_required)))))
        = validityPushes (snd (fst (FormComponent_changeState 1 mounted_required)))"
    using f0 r1 p1 r2 p2 by (simp_all add: m)
  from validityDiffers_iff [of v flags] n a ai r vl two sc show ?thesis
    by blast
qed

theorem validity_pushed_when_a_flag_differs_witness:
  "validityDiffers (\<lambda>_. False) [valueMissing \<mapsto> True]
   \<and> \<not> validityDiffers (\<lambda>k. k = valueMissing) [valueMissing \<mapsto> True]
   \<and> validate (fst mounted_required) = Some required_validate
   \<and> fst (required_validate 2) = fst (required_validate 1)
   \<and> snd (FormComponent_changeState 1 mounted_required) = None
   \<and> validityPushes (snd (fst (FormComponent_changeState 2
                                  (fst (FormComponent_changeState 1 mounted_required)))))
       = validityPushes (snd (fst (FormComponent_changeState 1 mounted_required)))"
proof -
  have h: "validate (fst mounted_required) = Some required_validate"
    "fst (required_validate 2) = fst (required_validate 1)"
    by (simp_all add: mounted_required_facts required_validate_def)
  show ?thesis
    using h
      validity_pushed_when_a_flag_differs
        [where v = "\<lambda>_. False" and flags = "[valueMissing \<mapsto> True]" and k = valueMissing
           and c = "fst mounted_required" and w = "snd mounted_required" and s = 1
           and vf = required_validate and ?s1.0 = 1 and ?s2.0 = 2]
      validity_pushed_when_a_flag_differs
        [where v = "\<lambda>k. k = valueMissing" and flags = "[valueMissing \<mapsto> True]"
           and k = valueMissing
           and c = "fst mounted_required" and w = "snd mounted_required" and s = 1
           and vf = required_validate and ?s1.0 = 1 and ?s2.0 = 2]
    by (simp add: nullish_def)
qed


text \<open>The effect of the validation step of \<^verbatim>\<open>index.ts\<close> on the host.\<close>

lemma form_commit_index_validity:
  "validity (snd (fst (FormComponent_changeState_index s (c, w)))) =
     (case validate c of
        None \<Rightarrow> validity w
      | Some vf \<Rightarrow> if connected c \<and> validityDiffers (validity w) (fst (vf s))
                       \<and> refusal (fst (vf s)) (snd (vf s)) w = None
                    then (\<lambda>k. nullish (fst (vf s) k) False) else validity w)"
  by (simp add: FormComponent_changeState_index_eq changeState_index_form_frame
      maybeValidate_index_def setValidity_def setFormValue_def refusal_def Let_def
      split: option.splits prod.splits)

lemma form_commit_index_raised:
  "snd (FormComponent_changeState_index s (c, w)) =
     (case validate c of
        None \<Rightarrow> None
      | Some vf \<Rightarrow> if connected c \<and> validityDiffers (validity w) (fst (vf s))
                    then refusal (fst (vf s)) (snd (vf s)) w else None)"
  by (simp add: FormComponent_changeState_index_eq changeState_index_form_frame
      maybeValidate_index_def setValidity_def setFormValue_def refusal_def Let_def
      split: option.splits prod.splits)

text \<open>
  C10. Every commit on a form-capable instance pushes the form value of the state just
  committed and then runs the validation step, in both files. This includes the commit
  of the state the instance already holds, which the base \<^verbatim>\<open>_changeState\<close> ignores: the
  override still pushes the form value, and it still validates, that is, it calls
  \<^verbatim>\<open>setValidity\<close> with the flags, the message and the root whenever \<^verbatim>\<open>validate\<close> is
  given and some flag differs from the host's (in \<^verbatim>\<open>index.ts\<close>: and the instance is
  connected). On the required field, mounted in state 0 by either file, the commit of
  state 0 pushes the form value a second time and pushes the validity flags for the
  first time; the host accepts them and \<^verbatim>\<open>valueMissing\<close> is set afterwards.
\<close>

theorem form_commit_always_pushes_value:
  fixes c :: "('s, 'd, 'z) FormComponent_scheme" and w :: "('s, 'd) world"
  shows "formValues (snd (fst (FormComponent_changeState s (c, w)))) = formValues w @ [formValue c s]
    \<and> formValues (snd (fst (FormComponent_changeState_index s (c, w))))
        = formValues w @ [formValue c s]
    \<and> FormComponent_changeState (state c) (c, w)
        = ((c, fst (maybeValidate (c, setFormValue (formValue c (state c)) w))),
           snd (maybeValidate (c, setFormValue (formValue c (state c)) w)))
    \<and> FormComponent_changeState_index (state c) (c, w)
        = ((c, fst (maybeValidate_index (c, setFormValue (formValue c (state c)) w))),
           snd (maybeValidate_index (c, setFormValue (formValue c (state c)) w)))
    \<and> changeState (state c) (c, w) = (c, w)
    \<and> changeState_index (state c) (c, w) = (c, w)
    \<and> validityPushes (snd (fst (FormComponent_changeState (state c) (c, w))))
        = validityPushes w @
          (case validate c of
             None \<Rightarrow> []
           | Some vf \<Rightarrow> if \<exists>k. validity w k \<noteq> nullish (fst (vf (state c)) k) False
                         then [(fst (vf (state c)), snd (vf (state c)), root c)] else [])
    \<and> validityPushes (snd (fst (FormComponent_changeState_index (state c) (c, w))))
        = validityPushes w @
          (case validate c of
             None \<Rightarrow> []
           | Some vf \<Rightarrow> if connected c
                            \<and> (\<exists>k. validity w k \<noteq> nullish (fst (vf (state c)) k) False)
                         then [(fst (vf (state c)), snd (vf (state c)), root c)] else [])
    \<and> state (fst mounted_required) = 0
    \<and> formValues (snd mounted_required) = [''zero'']
    \<and> validityPushes (snd mounted_required) = []
    \<and> formValues (snd (fst (FormComponent_changeState 0 mounted_required))) = [''zero'', ''zero'']
    \<and> map (\<lambda>(flags, message, anchor). (flags valueMissing, message, anchor))
          (validityPushes (snd (fst (FormComponent_changeState 0 mounted_required))))
        = [(Some True, ''required'', label 0)]
    \<and> snd (FormComponent_changeState 0 mounted_required) = None
    \<and> validity (snd (fst (FormComponent_changeState 0 mounted_required))) valueMissing
    \<and> state (fst mounted_required_index) = 0
    \<and> connected (fst mounted_required_index)
    \<and> formValues (snd mounted_required_index) = [''zero'']
    \<and> validityPushes (snd mounted_required_index) = []
    \<and> formValues (snd (fst (FormComponent_changeState_index 0 mounted_required_index)))
        = [''zero'', ''zero'']
    \<and> map (\<lambda>(flags, message, anchor). (flags valueMissing, message, anchor))
          (validityPushes (snd (fst (FormComponent_changeState_index 0 mounted_required_index))))
        = [(Some True, ''required'', label 0)]
    \<and> snd (FormComponent_changeState_index 0 mounted_required_index) = None
    \<and> validity (snd (fst (FormComponent_changeState_index 0 mounted_required_index)))
        valueMissing"
proof -
  have i: "FormComponent_changeState (state c) (c, w)
        = ((c, fst (maybeValidate (c, setFormValue (formValue c (state c)) w))),
           snd (maybeValidate (c, setFormValue (formValue c (state c)) w)))"
    by (simp add: FormComponent_changeState_def changeState_same split: prod.splits)
  have ii: "FormComponent_changeState_index (state c) (c, w)
        = ((c, fst (maybeValidate_index (c, setFormValue (formValue c (state c)) w))),
           snd (maybeValidate_index (c, setFormValue (formValue c (state c)) w)))"
    by (simp add: FormComponent_changeState_index_def changeState_index_same split: prod.splits)
  have p: "validityPushes (snd (fst (FormComponent_changeState (state c) (c, w))))
        = validityPushes w @
          (case validate c of
             None \<Rightarrow> []
           | Some vf \<Rightarrow> if \<exists>k. validity w k \<noteq> nullish (fst (vf (state c)) k) False
                         then [(fst (vf (state c)), snd (vf (state c)), root c)] else [])"
    by (simp add: form_commit_pushes validityDiffers_iff split: option.splits)
  have pi: "validityPushes (snd (fst (FormComponent_changeState_index (state c) (c, w))))
        = validityPushes w @
          (case validate c of
             None \<Rightarrow> []
           | Some vf \<Rightarrow> if connected c
                            \<and> (\<exists>k. validity w k \<noteq> nullish (fst (vf (state c)) k) False)
                         then [(fst (vf (state c)), snd (vf (state c)), root c)] else [])"
    by (simp add: form_commit_index_pushes validityDiffers_iff split: option.splits)
  obtain c0 w0 where m: "mounted_required = (c0, w0)"
    by (cases mounted_required)
  have f0: "state c0 = 0" "validate c0 = Some required_validate" "validityPushes w0 = []"
    "validity w0 = (\<lambda>_. False)" "attached w0" "root c0 = label 0"
    "formValues w0 = [''zero'']" "formValue c0 = required_formValue"
    using mounted_required_facts by (simp_all add: m)
  have g0: "formValues (snd (fst (FormComponent_changeState 0 (c0, w0)))) = [''zero'', ''zero'']"
    "snd (FormComponent_changeState 0 (c0, w0)) = None"
    "validity (snd (fst (FormComponent_changeState 0 (c0, w0)))) valueMissing"
    by (simp_all add: form_commit_formValues form_commit_raised form_commit_validity f0
        required_differs required_formValue_def)
       (simp add: required_validate_def nullish_def)
  have h0: "map (\<lambda>(flags, message, anchor). (flags valueMissing, message, anchor))
          (validityPushes (snd (fst (FormComponent_changeState 0 (c0, w0)))))
        = [(Some True, ''required'', label 0)]"
    by (simp add: form_commit_pushes f0 required_differs) (simp add: required_validate_def)
  obtain ci wi where mi: "mounted_required_index = (ci, wi)"
    by (cases mounted_required_index)
  have fi: "state ci = 0" "validate ci = Some required_validate" "validityPushes wi = []"
    "validity wi = (\<lambda>_. False)" "attached wi" "root ci = label 0" "connected ci"
    "formValues wi = [''zero'']" "formValue ci = required_formValue"
    using mounted_required_index_facts by (simp_all add: mi)
  have gi: "formValues (snd (fst (FormComponent_changeState_index 0 (ci, wi))))
              = [''zero'', ''zero'']"
    "snd (FormComponent_changeState_index 0 (ci, wi)) = None"
    "validity (snd (fst (FormComponent_changeState_index 0 (ci, wi)))) valueMissing"
    by (simp_all add: form_commit_index_formValues form_commit_index_raised
        form_commit_index_validity fi required_differs required_formValue_def)
       (simp add: required_validate_def nullish_def)
  have hi: "map (\<lambda>(flags, message, anchor). (flags valueMissing, message, anchor))
          (validityPushes (snd (fst (FormComponent_changeState_index 0 (ci, wi)))))
        = [(Some True, ''required'', label 0)]"
    by (simp add: form_commit_index_pushes fi required_differs) (simp add: required_validate_def)
  have sc: "state (fst mounted_required) = 0"
    "formValues (snd mounted_required) = [''zero'']"
    "validityPushes (snd mounted_required) = []"
    "formValues (snd (fst (FormComponent_changeState 0 mounted_required))) = [''zero'', ''zero'']"
    "map (\<lambda>(flags, message, anchor). (flags valueMissing, message, anchor))
          (validityPushes (snd (fst (FormComponent_changeState 0 mounted_required))))
        = [(Some True, ''required'', label 0)]"
    "snd (FormComponent_changeState 0 mounted_required) = None"
    "validity (snd (fst (FormComponent_changeState 0 mounted_required))) valueMissing"
    using f0 g0 h0 by (simp_all add: m)
  have sci: "state (fst mounted_required_index) = 0"
    "connected (fst mounted_required_index)"
    "formValues (snd mounted_required_index) = [''zero'']"
    "validityPushes (snd mounted_required_index) = []"
    "formValues (snd (fst (FormComponent_changeState_index 0 mounted_required_index)))
        = [''zero'', ''zero'']"
    "map (\<lambda>(flags, message, anchor). (flags valueMissing, message, anchor))
          (validityPushes (snd (fst (FormComponent_changeState_index 0 mounted_required_index))))
        = [(Some True, ''required'', label 0)]"
    "snd (FormComponent_changeState_index 0 mounted_required_index) = None"
    "validity (snd (fst (FormComponent_changeState_index 0 mounted_required_index)))
        valueMissing"
    using fi gi hi by (simp_all add: mi)
  from form_commit_formValues [of s c w] form_commit_index_formValues [of s c w] i ii
    changeState_same [of c "state c" w] changeState_index_same [of c "state c" w] p pi sc sci
  show ?thesis by blast
qed

subsection \<open>Property projection\<close>

lemma defineProps_no_setter_step:
  "\<forall>name desc. map_of own name = Some desc \<longrightarrow> desc_set desc = None \<Longrightarrow>
   \<forall>name desc. map_of (defineProps props own) name = Some desc \<longrightarrow> desc_set desc = None"
proof (induction props arbitrary: own)
  case Nil
  then show ?case by (simp add: defineProps_def)
next
  case (Cons p props)
  obtain n pr where p: "p = (n, pr)" by (cases p)
  let ?d = "if has_getter pr then \<lparr>desc_get = prop_get pr, desc_set = None\<rparr>
            else \<lparr>desc_get = None, desc_set = None\<rparr>"
  have step: "defineProps (p # props) own = defineProps props (AList.update n ?d own)"
    by (simp add: defineProps_def p Let_def)
  have "\<forall>name desc. map_of (AList.update n ?d own) name = Some desc \<longrightarrow> desc_set desc = None"
    using Cons.prems by (auto simp: update_conv)
  then show ?case
    unfolding step by (rule Cons.IH)
qed

lemma defineProps_installs_no_setter:
  fixes props :: "(string \<times> ('s, 'v) Prop) list" and desc :: "('s, 'd, 'v) descriptor"
  assumes "map_of (defineProps props []) name = Some desc"
  shows "desc_set desc = None"
proof -
  have "\<forall>name (desc :: ('s, 'd, 'v) descriptor). map_of [] name = Some desc \<longrightarrow> desc_set desc = None"
    by simp
  from defineProps_no_setter_step [OF this] assms show ?thesis
    by blast
qed

text \<open>
  C9. \<^verbatim>\<open>_defineProps\<close> installs the getter of a projection and nothing for its setter and
  guard: the property \<^verbatim>\<open>value\<close>, declared with \<^verbatim>\<open>get\<close>, \<^verbatim>\<open>set\<close> and \<^verbatim>\<open>predicate\<close>, has a
  \<^verbatim>\<open>get\<close> member and no \<^verbatim>\<open>set\<close> member; it reads as the state, and writing 5 to it, a
  value that satisfies the guard, commits nothing and is a \<^verbatim>\<open>TypeError\<close>.
\<close>

theorem write_accessor_not_installed:
  "map (\<lambda>(name, desc). (name, desc_get desc \<noteq> None, desc_set desc \<noteq> None)) value_properties
     = [(''value'', True, False)]
   \<and> readProperty ''value'' value_properties counter = Some 0
   \<and> writeProperty ''value'' 5 value_properties (counter, initial_world) = Inl TypeError"
  by (simp add: value_properties_def value_props_def defineProps_def readProperty_def
      writeProperty_def counter_def counter_args_def Component_core_def)

end
